theory Spec2Isabelle
  imports Main "HOL-Library.AList"
begin

section \<open>The atom model\<close>

text \<open>
  Modelled from the spec: the atom-model classes (\<open>RadixSpin\<close>, \<open>RadixOwnedTokensParticle\<close>,
  \<open>RadixFeeParticle\<close>, \<open>RadixAtom\<close>, \<open>RadixAtomUpdate\<close>, \<open>RadixDecryptionState\<close>) are imported by
  \<open>RadixTransferAccountSystem.ts\<close> but their declarations are not part of the sources at hand.
  A spin is \<open>UP\<close> or \<open>DOWN\<close>; a token-bearing particle has an id, an owner address, an unsigned
  amount and a token-class reference; a fee particle is a token-bearing particle of a distinct
  variant (\<open>particle instanceof RadixFeeParticle\<close>, the field \<open>isFee\<close> here). Addresses, ids and
  token-class references are represented by their canonical strings.
\<close>

datatype RadixSpin = UP | DOWN

record RadixOwnedTokensParticle =
  particle_id :: string
  particle_address :: string
  amount :: nat
  tokenClassReference :: string
  isFee :: bool

datatype RadixParticle = OwnedTokens RadixOwnedTokensParticle | OtherParticle

record RadixSpunParticle =
  spin :: RadixSpin
  particle :: RadixParticle

record RadixAtom =
  hid :: string
  timestamp :: int
  particles :: "RadixSpunParticle list"

datatype RadixDecryptionState = DECRYPTED | ENCRYPTED_NOT_OWNED | CANNOT_DECRYPT

record RadixDecryptedData =
  decryptionState :: RadixDecryptionState
  data :: string

text \<open>
  \<open>decryptedData\<close> stands for \<open>atomUpdate.processedData.decryptedData\<close>, absent (\<open>None\<close>) when
  the property is undefined. The action is the string the code compares with \<open>'STORE'\<close> and
  \<open>'DELETE'\<close>.
\<close>

record RadixAtomUpdate =
  action :: string
  atom :: RadixAtom
  decryptedData :: "RadixDecryptedData option"

text \<open>
  Modelled from the spec: \<open>atom.containsParticle(RadixOwnedTokensParticle)\<close> and
  \<open>atom.getSpunParticlesOfType(RadixOwnedTokensParticle)\<close> (methods of the absent \<open>RadixAtom\<close>):
  whether the atom has a token-bearing particle, and its token-bearing spun particles in order.
\<close>

fun ownedTokensOf :: "RadixSpunParticle \<Rightarrow> (RadixSpin \<times> RadixOwnedTokensParticle) list" where
  "ownedTokensOf sp =
     (case particle sp of OwnedTokens p \<Rightarrow> [(spin sp, p)] | OtherParticle \<Rightarrow> [])"

definition getSpunParticlesOfType ::
  "RadixAtom \<Rightarrow> (RadixSpin \<times> RadixOwnedTokensParticle) list" where
  "getSpunParticlesOfType a = concat (map ownedTokensOf (particles a))"

definition containsParticle :: "RadixAtom \<Rightarrow> bool" where
  "containsParticle a = (getSpunParticlesOfType a \<noteq> [])"

section \<open>The transfer account system\<close>

text \<open>
  \<open>TSMap\<close> (typescript-map) and plain JavaScript objects are association lists in insertion
  order: \<open>set\<close> overwrites the value of a present key in place and appends an absent one
  (\<open>AList.update\<close>), \<open>delete\<close> removes the key (\<open>AList.delete\<close>), \<open>has\<close> and the
  \<open>in\<close> operator test the key. Big numbers (\<open>BN\<close>) are unbounded integers. A \<open>for ... in\<close>
  loop visits the keys of an object in insertion order (the keys here, token-class references
  and addresses, are not array indices).
\<close>

definition has :: "('k \<times> 'v) list \<Rightarrow> 'k \<Rightarrow> bool" where
  "has m k = (map_of m k \<noteq> None)"

record RadixTransaction =
  tx_hid :: string
  tx_balance :: "(string \<times> int) list"
  fee :: int
  participants :: "(string \<times> string) list"
  tx_timestamp :: int
  message :: string

record RadixTransactionUpdate =
  tu_action :: string
  tu_hid :: string
  transaction :: RadixTransaction

text \<open>
  The two subjects are the lists of the values passed to their \<open>next\<close>, oldest first, each
  value as it is at the moment of the emission.
\<close>

record RadixTransferAccountSystem =
  address :: string
  transactions :: "(string \<times> RadixTransaction) list"
  balance :: "(string \<times> int) list"
  unspentConsumables :: "(string \<times> RadixOwnedTokensParticle) list"
  spentConsumables :: "(string \<times> RadixOwnedTokensParticle) list"
  transactionSubject :: "RadixTransactionUpdate list"
  balanceSubject :: "(string \<times> int) list list"

definition newTransferAccountSystem :: "string \<Rightarrow> RadixTransferAccountSystem" where
  "newTransferAccountSystem a =
     \<lparr>address = a, transactions = [], balance = [], unspentConsumables = [],
      spentConsumables = [], transactionSubject = [], balanceSubject = []\<rparr>"

text \<open>
  \<open>if (!(k in obj)) obj[k] = new BN(0)\<close> followed by \<open>obj[k].iadd(q)\<close>, and the same with
  \<open>isub\<close>.
\<close>

definition initZero :: "string \<Rightarrow> (string \<times> int) list \<Rightarrow> (string \<times> int) list" where
  "initZero k m = (if has m k then m else AList.update k 0 m)"

definition iaddAt :: "string \<Rightarrow> int \<Rightarrow> (string \<times> int) list \<Rightarrow> (string \<times> int) list" where
  "iaddAt k q m = AList.map_entry k (\<lambda>v. v + q) (initZero k m)"

definition isubAt :: "string \<Rightarrow> int \<Rightarrow> (string \<times> int) list \<Rightarrow> (string \<times> int) list" where
  "isubAt k q m = AList.map_entry k (\<lambda>v. v - q) (initZero k m)"

text \<open>
  The body of the loop of \<open>processStoreAtom\<close> (lines 84 to 118) for one consumable: the state of
  the loop is the account system and the transaction under construction. The quantity starts
  at \<open>new BN(1)\<close>, as line 97 has it.
\<close>

definition storeConsumable ::
  "RadixSpin \<times> RadixOwnedTokensParticle \<Rightarrow> RadixTransferAccountSystem \<times> RadixTransaction
   \<Rightarrow> RadixTransferAccountSystem \<times> RadixTransaction" where
  "storeConsumable c st =
     (let sp = fst c; p = snd c; s = fst st; t = snd st;
          tokenClass = tokenClassReference p;
          ownedByMe = (particle_address p = address s)
      in if ownedByMe \<and> \<not> isFee p then
           (let quantity = (1::int);
                quantity' = (case sp of DOWN \<Rightarrow> quantity - int (amount p)
                                      | UP \<Rightarrow> quantity + int (amount p));
                s' = (case sp of
                        DOWN \<Rightarrow> s\<lparr>unspentConsumables :=
                                     AList.delete (particle_id p) (unspentConsumables s),
                                   spentConsumables :=
                                     AList.update (particle_id p) p (spentConsumables s)\<rparr>
                      | UP \<Rightarrow> (if \<not> has (spentConsumables s) (particle_id p)
                               then s\<lparr>unspentConsumables :=
                                        AList.update (particle_id p) p (unspentConsumables s)\<rparr>
                               else s))
            in (s', t\<lparr>tx_balance := iaddAt tokenClass quantity' (tx_balance t)\<rparr>))
         else if \<not> ownedByMe \<and> \<not> isFee p then
           (s, t\<lparr>participants :=
                   AList.update (particle_address p) (particle_address p) (participants t)\<rparr>)
         else (s, t))"

text \<open>The body of the loop of \<open>processDeleteAtom\<close> (lines 154 to 187); the quantity starts at 0.\<close>

definition deleteConsumable ::
  "RadixSpin \<times> RadixOwnedTokensParticle \<Rightarrow> RadixTransferAccountSystem \<times> RadixTransaction
   \<Rightarrow> RadixTransferAccountSystem \<times> RadixTransaction" where
  "deleteConsumable c st =
     (let sp = fst c; p = snd c; s = fst st; t = snd st;
          tokenClass = tokenClassReference p;
          ownedByMe = (particle_address p = address s)
      in if ownedByMe \<and> \<not> isFee p then
           (let quantity = (0::int);
                quantity' = (case sp of DOWN \<Rightarrow> quantity + int (amount p)
                                      | UP \<Rightarrow> quantity - int (amount p));
                s' = (case sp of
                        DOWN \<Rightarrow> s\<lparr>spentConsumables :=
                                     AList.delete (particle_id p) (spentConsumables s),
                                   unspentConsumables :=
                                     AList.update (particle_id p) p (unspentConsumables s)\<rparr>
                      | UP \<Rightarrow> s\<lparr>unspentConsumables :=
                                   AList.delete (particle_id p) (unspentConsumables s),
                                 spentConsumables :=
                                   AList.update (particle_id p) p (spentConsumables s)\<rparr>)
            in (s', t\<lparr>tx_balance := iaddAt tokenClass quantity' (tx_balance t)\<rparr>))
         else if \<not> ownedByMe \<and> \<not> isFee p then
           (s, t\<lparr>participants :=
                   AList.update (particle_address p) (particle_address p) (participants t)\<rparr>)
         else (s, t))"

text \<open>
  The loops \<open>for (const tokenId in transaction.balance)\<close> that add the transaction's balance to
  the account's (lines 123 to 129) or subtract it (lines 192 to 198).
\<close>

fun addBalance :: "(string \<times> int) list \<Rightarrow> (string \<times> int) list \<Rightarrow> (string \<times> int) list" where
  "addBalance [] b = b"
| "addBalance ((k, v) # tb) b = addBalance tb (iaddAt k v b)"

fun subBalance :: "(string \<times> int) list \<Rightarrow> (string \<times> int) list \<Rightarrow> (string \<times> int) list" where
  "subBalance [] b = b"
| "subBalance ((k, v) # tb) b = subBalance tb (isubAt k v b)"

definition newTransaction :: "RadixAtomUpdate \<Rightarrow> RadixTransaction" where
  "newTransaction u =
     (let t = \<lparr>tx_hid = hid (atom u), tx_balance = [], fee = 0, participants = [],
               tx_timestamp = timestamp (atom u), message = []\<rparr>
      in case decryptedData u of
           None \<Rightarrow> t
         | Some d \<Rightarrow> (if decryptionState d \<noteq> CANNOT_DECRYPT then t\<lparr>message := data d\<rparr> else t))"

definition processStoreAtom ::
  "RadixAtomUpdate \<Rightarrow> RadixTransferAccountSystem \<Rightarrow> RadixTransferAccountSystem" where
  "processStoreAtom u s =
     (if has (transactions s) (hid (atom u)) then s
      else
        (let st = fold storeConsumable (getSpunParticlesOfType (atom u)) (s, newTransaction u);
             s1 = fst st; t = snd st;
             s2 = s1\<lparr>transactions := AList.update (hid (atom u)) t (transactions s1)\<rparr>;
             s3 = s2\<lparr>balance := addBalance (tx_balance t) (balance s2)\<rparr>
         in s3\<lparr>balanceSubject := balanceSubject s3 @ [balance s3],
               transactionSubject := transactionSubject s3 @
                 [\<lparr>tu_action = ''STORE'', tu_hid = hid (atom u), transaction = t\<rparr>]\<rparr>))"

text \<open>
  \<open>processDeleteAtom\<close> folds into the transaction object it finds in \<open>transactions\<close>: the loop
  updates the stored transaction's own balance before that balance is subtracted.
\<close>

definition processDeleteAtom ::
  "RadixAtomUpdate \<Rightarrow> RadixTransferAccountSystem \<Rightarrow> RadixTransferAccountSystem" where
  "processDeleteAtom u s =
     (case map_of (transactions s) (hid (atom u)) of
        None \<Rightarrow> s
      | Some t0 \<Rightarrow>
        (let st = fold deleteConsumable (getSpunParticlesOfType (atom u)) (s, t0);
             s1 = fst st; t = snd st;
             s2 = s1\<lparr>transactions := AList.delete (hid (atom u)) (transactions s1)\<rparr>;
             s3 = s2\<lparr>balance := subBalance (tx_balance t) (balance s2)\<rparr>
         in s3\<lparr>balanceSubject := balanceSubject s3 @ [balance s3],
               transactionSubject := transactionSubject s3 @
                 [\<lparr>tu_action = ''DELETE'', tu_hid = hid (atom u), transaction = t\<rparr>]\<rparr>))"

definition processAtomUpdate ::
  "RadixAtomUpdate \<Rightarrow> RadixTransferAccountSystem \<Rightarrow> RadixTransferAccountSystem" where
  "processAtomUpdate u s =
     (if \<not> containsParticle (atom u) then s
      else if action u = ''STORE'' then processStoreAtom u s
      else if action u = ''DELETE'' then processDeleteAtom u s
      else s)"

text \<open>
  The quantities the invariants of the projection speak of: the balance of a token class (an
  absent key counts as 0), the sum of the stored transactions' balances for a token class, and
  the sum of the amounts of the unspent consumables of a token class. \<open>processAll\<close> applies a
  sequence of updates, oldest first.
\<close>

definition balanceAt :: "(string \<times> int) list \<Rightarrow> string \<Rightarrow> int" where
  "balanceAt b k = (case map_of b k of None \<Rightarrow> 0 | Some v \<Rightarrow> v)"

definition sumTransactions :: "RadixTransferAccountSystem \<Rightarrow> string \<Rightarrow> int" where
  "sumTransactions s k = sum_list (map (\<lambda>e. balanceAt (tx_balance (snd e)) k) (transactions s))"

definition sumUnspent :: "RadixTransferAccountSystem \<Rightarrow> string \<Rightarrow> int" where
  "sumUnspent s k =
     sum_list (map (\<lambda>e. int (amount (snd e)))
       (filter (\<lambda>e. tokenClassReference (snd e) = k) (unspentConsumables s)))"

definition processAll ::
  "RadixAtomUpdate list \<Rightarrow> RadixTransferAccountSystem \<Rightarrow> RadixTransferAccountSystem" where
  "processAll us s = fold processAtomUpdate us s"

definition disjointConsumables :: "RadixTransferAccountSystem \<Rightarrow> bool" where
  "disjointConsumables s =
     list_all (\<lambda>k. \<not> has (spentConsumables s) k) (map fst (unspentConsumables s))"

subsection \<open>The scenarios of the specification\<close>

text \<open>
  Account \<open>X\<close>; atom \<open>a1\<close> has one UP-spin particle \<open>p1\<close> of amount 100 and token class \<open>T\<close>
  owned by \<open>X\<close>; atom \<open>a2\<close> spends \<open>p1\<close> (DOWN) and creates \<open>p2\<close> (30, owned by \<open>X\<close>) and
  \<open>p3\<close> (70, owned by \<open>Y\<close>).
\<close>

definition p1 :: RadixOwnedTokensParticle where
  "p1 = \<lparr>particle_id = ''p1'', particle_address = ''X'', amount = 100,
         tokenClassReference = ''T'', isFee = False\<rparr>"

definition p2 :: RadixOwnedTokensParticle where
  "p2 = \<lparr>particle_id = ''p2'', particle_address = ''X'', amount = 30,
         tokenClassReference = ''T'', isFee = False\<rparr>"

definition p3 :: RadixOwnedTokensParticle where
  "p3 = \<lparr>particle_id = ''p3'', particle_address = ''Y'', amount = 70,
         tokenClassReference = ''T'', isFee = False\<rparr>"

definition a1 :: RadixAtom where
  "a1 = \<lparr>hid = ''a1'', timestamp = 1, particles = [\<lparr>spin = UP, particle = OwnedTokens p1\<rparr>]\<rparr>"

definition a2 :: RadixAtom where
  "a2 = \<lparr>hid = ''a2'', timestamp = 2,
         particles = [\<lparr>spin = DOWN, particle = OwnedTokens p1\<rparr>,
                      \<lparr>spin = UP, particle = OwnedTokens p2\<rparr>,
                      \<lparr>spin = UP, particle = OwnedTokens p3\<rparr>]\<rparr>"

definition STORE :: "RadixAtom \<Rightarrow> RadixAtomUpdate" where
  "STORE a = \<lparr>action = ''STORE'', atom = a, decryptedData = None\<rparr>"

definition DELETE :: "RadixAtom \<Rightarrow> RadixAtomUpdate" where
  "DELETE a = \<lparr>action = ''DELETE'', atom = a, decryptedData = None\<rparr>"

section \<open>The cache account system\<close>

text \<open>
  Modelled from the spec: the cache provider (\<open>RadixAtomCacheProvider\<close>, an interface whose
  implementations are not part of the sources at hand) is a store of atoms under their \<open>hid\<close>:
  \<open>storeAtom\<close> writes the atom under its key, \<open>deleteAtom\<close> removes it, \<open>getAtoms\<close> produces
  the stored atoms. The field \<open>atomCache\<close> is \<open>None\<close> when the constructor was given no
  provider and the property stays undefined.
\<close>

datatype error = TypeError

type_synonym RadixAtomCacheProvider = "(string \<times> RadixAtom) list"

definition storeAtom :: "RadixAtom \<Rightarrow> RadixAtomCacheProvider \<Rightarrow> RadixAtomCacheProvider" where
  "storeAtom a store = AList.update (hid a) a store"

definition deleteAtom :: "RadixAtom \<Rightarrow> RadixAtomCacheProvider \<Rightarrow> RadixAtomCacheProvider" where
  "deleteAtom a store = AList.delete (hid a) store"

definition getAtoms :: "string \<Rightarrow> RadixAtomCacheProvider \<Rightarrow> RadixAtom list" where
  "getAtoms kp store = map snd store"

record RadixCacheAccountSystem =
  keyPair :: string
  atomCache :: "RadixAtomCacheProvider option"

definition newCacheAccountSystem ::
  "string \<Rightarrow> RadixAtomCacheProvider option \<Rightarrow> RadixCacheAccountSystem" where
  "newCacheAccountSystem kp provider = \<lparr>keyPair = kp, atomCache = provider\<rparr>"

definition cacheProcessAtomUpdate ::
  "RadixAtomUpdate \<Rightarrow> RadixCacheAccountSystem \<Rightarrow> RadixCacheAccountSystem" where
  "cacheProcessAtomUpdate u cs =
     (case atomCache cs of
        None \<Rightarrow> cs
      | Some store \<Rightarrow>
          (if action u = ''STORE'' then cs\<lparr>atomCache := Some (storeAtom (atom u) store)\<rparr>
           else if action u = ''DELETE'' then cs\<lparr>atomCache := Some (deleteAtom (atom u) store)\<rparr>
           else cs))"

text \<open>
  \<open>loadAtoms\<close> calls \<open>this.atomCache.getAtoms(this.keyPair)\<close> with no test of \<open>this.atomCache\<close>:
  on an undefined provider the property access raises a \<open>TypeError\<close> (the promise of the async
  method is rejected).
\<close>

definition loadAtoms :: "RadixCacheAccountSystem \<Rightarrow> error + RadixAtom list" where
  "loadAtoms cs =
     (case atomCache cs of
        None \<Rightarrow> Inl TypeError
      | Some store \<Rightarrow> Inr (getAtoms (keyPair cs) store))"

section \<open>The node connection\<close>

text \<open>
  A subject (rxjs) is represented by what an observer attached at its creation receives:
  the values passed to \<open>next\<close> while the subject is active, then at most one terminal
  notification; \<open>next\<close>, \<open>error\<close> and \<open>complete\<close> on a stopped subject deliver nothing.
  The first value of a \<open>BehaviorSubject\<close> is its initial value.
\<close>

datatype streamStatus = Active | Completed | Errored string

record subject =
  emitted :: "string list"
  status :: streamStatus

definition subject_next :: "string \<Rightarrow> subject \<Rightarrow> subject" where
  "subject_next v sj = (if status sj = Active then sj\<lparr>emitted := emitted sj @ [v]\<rparr> else sj)"

definition subject_error :: "string \<Rightarrow> subject \<Rightarrow> subject" where
  "subject_error e sj = (if status sj = Active then sj\<lparr>status := Errored e\<rparr> else sj)"

definition subject_complete :: "subject \<Rightarrow> subject" where
  "subject_complete sj = (if status sj = Active then sj\<lparr>status := Completed\<rparr> else sj)"

text \<open>
  The connection, once \<open>openConnection\<close> has created its socket. Time is a clock in
  milliseconds; a pending \<open>setTimeout\<close> is a pair of its deadline and what it runs:
  \<open>IdleClose\<close> is the timer of the constructor (lines 50 to 52), \<open>SubmitTimeout i\<close> the one of
  \<open>submitAtom\<close> for subscriber \<open>i\<close> (lines 248 to 252). \<open>closeCalls\<close> counts the calls of
  \<open>this.close()\<close>, \<open>socketCloseCalls\<close> those of \<open>this._socket.close()\<close>. The atoms pushed
  into the subscriptions are not represented, only the state of each subscription's subject.
\<close>

datatype timer = IdleClose | SubmitTimeout nat

record RadixNodeConnection =
  lastSubscriberId :: nat
  numberOfSubscriptions :: int
  subscriptions :: "(nat \<times> streamStatus) list"
  atomUpdateSubjects :: "(nat \<times> subject) list"
  addressSubscriptions :: "(string \<times> nat) list"
  clock :: nat
  timers :: "(nat \<times> timer) list"
  closeCalls :: nat
  socketCloseCalls :: nat

definition newNodeConnection :: RadixNodeConnection where
  "newNodeConnection =
     \<lparr>lastSubscriberId = 1, numberOfSubscriptions = 1, subscriptions = [],
      atomUpdateSubjects = [], addressSubscriptions = [], clock = 0, timers = [],
      closeCalls = 0, socketCloseCalls = 0\<rparr>"

text \<open>
  \<open>this.numberOfSubscriptions.next(v)\<close>: the value is stored and the observer of the
  constructor runs, arming a 5000 ms timer when \<open>v <= 0\<close>. Nothing keeps the timer's handle.
\<close>

definition numberOfSubscriptions_next :: "int \<Rightarrow> RadixNodeConnection \<Rightarrow> RadixNodeConnection" where
  "numberOfSubscriptions_next v c =
     c\<lparr>numberOfSubscriptions := v,
       timers := (if v \<le> 0 then timers c @ [(clock c + 5000, IdleClose)] else timers c)\<rparr>"

definition getSubscriberId :: "RadixNodeConnection \<Rightarrow> nat \<times> RadixNodeConnection" where
  "getSubscriberId c = (lastSubscriberId c + 1, c\<lparr>lastSubscriberId := lastSubscriberId c + 1\<rparr>)"

text \<open>\<open>subscribe\<close>: the synchronous part, then the two ways the call \<open>Atoms.subscribe\<close> settles.\<close>

definition subscribe :: "string \<Rightarrow> RadixNodeConnection \<Rightarrow> nat \<times> RadixNodeConnection" where
  "subscribe addr c =
     (let r = getSubscriberId c; subscriberId = fst r; c1 = snd r
      in (subscriberId,
          c1\<lparr>addressSubscriptions := AList.update addr subscriberId (addressSubscriptions c1),
             subscriptions := AList.update subscriberId Active (subscriptions c1)\<rparr>))"

definition subscribe_resolved :: "bool \<Rightarrow> RadixNodeConnection \<Rightarrow> RadixNodeConnection" where
  "subscribe_resolved first c =
     (if \<not> first then numberOfSubscriptions_next (numberOfSubscriptions c + 1) c else c)"

definition stop_with :: "streamStatus \<Rightarrow> streamStatus \<Rightarrow> streamStatus" where
  "stop_with new old = (if old = Active then new else old)"

definition subscribe_rejected ::
  "nat \<Rightarrow> string \<Rightarrow> RadixNodeConnection \<Rightarrow> RadixNodeConnection" where
  "subscribe_rejected subscriberId e c =
     c\<lparr>subscriptions := AList.map_entry subscriberId (stop_with (Errored e)) (subscriptions c)\<rparr>"

text \<open>
  \<open>unsubscribe\<close>: \<open>subscriberId\<close> is what \<open>this._addressSubscriptions[address]\<close> gave when the
  method was called (\<open>None\<close> for undefined). When the call \<open>Atoms.cancel\<close> resolves, the
  subscription is completed and the address removed from the index; a missing subscription
  raises inside the \<open>then\<close> callback, which the \<open>catch\<close> turns into a rejection. The \<open>finally\<close>
  callback decrements the count on every path.
\<close>

definition unsubscribe_settled ::
  "bool \<Rightarrow> string \<Rightarrow> nat option \<Rightarrow> RadixNodeConnection \<Rightarrow> RadixNodeConnection" where
  "unsubscribe_settled resolved addr subscriberId c =
     (let c1 =
        (if resolved then
           (case subscriberId of
              None \<Rightarrow> c
            | Some i \<Rightarrow>
                (if has (subscriptions c) i
                 then c\<lparr>subscriptions := AList.map_entry i (stop_with Completed) (subscriptions c),
                        addressSubscriptions := AList.delete addr (addressSubscriptions c)\<rparr>
                 else c))
         else c)
      in numberOfSubscriptions_next (numberOfSubscriptions c1 - 1) c1)"

text \<open>\<open>unsubscribeAll\<close>, once every unsubscription has resolved (lines 211 to 216).\<close>

definition unsubscribeAll_resolved :: "RadixNodeConnection \<Rightarrow> RadixNodeConnection" where
  "unsubscribeAll_resolved c = numberOfSubscriptions_next 0 c"

text \<open>
  \<open>submitAtom\<close>: the synchronous part (lines 242 to 258) returns the subscriber id with the
  connection; then the call \<open>Universe.submitAtomAndSubscribe\<close> resolves or is rejected, and in
  both cases the \<open>finally\<close> callback increments the count. \<open>clearTimeout\<close> removes the pending
  timer of that submission.
\<close>

definition clearTimeout :: "nat \<Rightarrow> RadixNodeConnection \<Rightarrow> RadixNodeConnection" where
  "clearTimeout subscriberId c =
     c\<lparr>timers := filter (\<lambda>e. snd e \<noteq> SubmitTimeout subscriberId) (timers c)\<rparr>"

definition submitAtom :: "RadixNodeConnection \<Rightarrow> nat \<times> RadixNodeConnection" where
  "submitAtom c =
     (let r = getSubscriberId c; subscriberId = fst r; c1 = snd r;
          atomStateSubject = \<lparr>emitted = [''CREATED''], status = Active\<rparr>
      in (subscriberId,
          c1\<lparr>atomUpdateSubjects :=
               AList.update subscriberId atomStateSubject (atomUpdateSubjects c1),
             timers := timers c1 @ [(clock c1 + 5000, SubmitTimeout subscriberId)]\<rparr>))"

definition submitAtom_resolved :: "nat \<Rightarrow> RadixNodeConnection \<Rightarrow> RadixNodeConnection" where
  "submitAtom_resolved subscriberId c =
     (let c1 = clearTimeout subscriberId c;
          c2 = c1\<lparr>atomUpdateSubjects :=
                 AList.map_entry subscriberId (subject_next ''SUBMITTED'') (atomUpdateSubjects c1)\<rparr>
      in numberOfSubscriptions_next (numberOfSubscriptions c2 + 1) c2)"

definition submitAtom_rejected ::
  "nat \<Rightarrow> string \<Rightarrow> RadixNodeConnection \<Rightarrow> RadixNodeConnection" where
  "submitAtom_rejected subscriberId e c =
     (let c1 = clearTimeout subscriberId c;
          c2 = c1\<lparr>atomUpdateSubjects :=
                 AList.map_entry subscriberId (subject_error e) (atomUpdateSubjects c1)\<rparr>
      in numberOfSubscriptions_next (numberOfSubscriptions c2 + 1) c2)"

text \<open>What a timer runs at its expiry, and the passing of \<open>dt\<close> milliseconds.\<close>

fun fireTimer :: "timer \<Rightarrow> RadixNodeConnection \<Rightarrow> RadixNodeConnection" where
  "fireTimer IdleClose c =
     c\<lparr>closeCalls := closeCalls c + 1, socketCloseCalls := socketCloseCalls c + 1\<rparr>"
| "fireTimer (SubmitTimeout subscriberId) c =
     c\<lparr>socketCloseCalls := socketCloseCalls c + 1,
       atomUpdateSubjects :=
         AList.map_entry subscriberId (subject_error ''Socket timeout'') (atomUpdateSubjects c)\<rparr>"

definition advance :: "nat \<Rightarrow> RadixNodeConnection \<Rightarrow> RadixNodeConnection" where
  "advance dt c =
     (let now = clock c + dt;
          due = filter (\<lambda>e. fst e \<le> now) (timers c);
          pending = filter (\<lambda>e. \<not> fst e \<le> now) (timers c)
      in fold fireTimer (map snd due) (c\<lparr>clock := now, timers := pending\<rparr>))"

text \<open>
  \<open>_onAtomSubmissionStateUpdate\<close> (lines 319 to 350). The subject is read from
  \<open>_atomUpdateSubjects\<close>; when there is none, the first method call on it raises. An absent
  \<open>message\<close> is concatenated as the text \<open>undefined\<close>.
\<close>

definition messageText :: "string option \<Rightarrow> string" where
  "messageText m = (case m of None \<Rightarrow> ''undefined'' | Some t \<Rightarrow> t)"

definition onAtomSubmissionStateUpdate ::
  "nat \<Rightarrow> string \<Rightarrow> string option \<Rightarrow> RadixNodeConnection \<Rightarrow> error + RadixNodeConnection" where
  "onAtomSubmissionStateUpdate subscriberId v m c =
     (if v = ''SUBMITTING'' \<or> v = ''SUBMITTED'' then
        (case map_of (atomUpdateSubjects c) subscriberId of
           None \<Rightarrow> Inl TypeError
         | Some sj \<Rightarrow>
             Inr (c\<lparr>atomUpdateSubjects :=
                      AList.update subscriberId (subject_next v sj) (atomUpdateSubjects c)\<rparr>))
      else if v = ''STORED'' then
        (case map_of (atomUpdateSubjects c) subscriberId of
           None \<Rightarrow> Inl TypeError
         | Some sj \<Rightarrow>
             Inr (numberOfSubscriptions_next (numberOfSubscriptions c - 1)
                    (c\<lparr>atomUpdateSubjects :=
                         AList.update subscriberId (subject_complete (subject_next v sj))
                           (atomUpdateSubjects c)\<rparr>)))
      else if v = ''COLLISION'' \<or> v = ''ILLEGAL_STATE'' \<or> v = ''UNSUITABLE_PEER''
              \<or> v = ''VALIDATION_ERROR'' then
        (case map_of (atomUpdateSubjects c) subscriberId of
           None \<Rightarrow> Inl TypeError
         | Some sj \<Rightarrow>
             Inr (numberOfSubscriptions_next (numberOfSubscriptions c - 1)
                    (c\<lparr>atomUpdateSubjects :=
                         AList.update subscriberId (subject_error (v @ '': '' @ messageText m) sj)
                           (atomUpdateSubjects c)\<rparr>)))
      else Inr c)"

text \<open>\<open>_onClosed\<close> (lines 296 to 317): every subject that is still active is errored.\<close>

definition onClosed :: "RadixNodeConnection \<Rightarrow> RadixNodeConnection" where
  "onClosed c =
     c\<lparr>subscriptions := map (\<lambda>e. (fst e, stop_with (Errored ''Socket closed'') (snd e)))
                           (subscriptions c),
       atomUpdateSubjects := map (\<lambda>e. (fst e, subject_error ''Socket closed'' (snd e)))
                                (atomUpdateSubjects c)\<rparr>"

text \<open>
  The events of a connection's life, one per callback of the class, and the connection after
  a sequence of them. An exception raised inside a notification handler leaves the connection
  as it was.
\<close>

datatype event =
    Subscribe string
  | SubscribeResolved bool
  | SubscribeRejected nat string
  | UnsubscribeSettled bool string "nat option"
  | UnsubscribeAllResolved
  | SubmitAtom
  | SubmitAtomResolved nat
  | SubmitAtomRejected nat string
  | SubmissionStateUpdate nat string "string option"
  | SocketClosed
  | Advance nat

fun step :: "event \<Rightarrow> RadixNodeConnection \<Rightarrow> RadixNodeConnection" where
  "step (Subscribe addr) c = snd (subscribe addr c)"
| "step (SubscribeResolved first) c = subscribe_resolved first c"
| "step (SubscribeRejected i e) c = subscribe_rejected i e c"
| "step (UnsubscribeSettled ok addr i) c = unsubscribe_settled ok addr i c"
| "step UnsubscribeAllResolved c = unsubscribeAll_resolved c"
| "step SubmitAtom c = snd (submitAtom c)"
| "step (SubmitAtomResolved i) c = submitAtom_resolved i c"
| "step (SubmitAtomRejected i e) c = submitAtom_rejected i e c"
| "step (SubmissionStateUpdate i v m) c =
     (case onAtomSubmissionStateUpdate i v m c of Inl _ \<Rightarrow> c | Inr c' \<Rightarrow> c')"
| "step SocketClosed c = onClosed c"
| "step (Advance dt) c = advance dt c"

definition run :: "event list \<Rightarrow> RadixNodeConnection \<Rightarrow> RadixNodeConnection" where
  "run es c = fold step es c"

text \<open>
  The words of the submission state machine: the non-terminal states, the terminal failures,
  and the notifications a node pushes for one submission, as events. \<open>idleTimers\<close> are the
  pending timers of the idle close.
\<close>

definition nonTerminal :: "string \<Rightarrow> bool" where
  "nonTerminal v = (v = ''SUBMITTING'' \<or> v = ''SUBMITTED'')"

definition terminalFailure :: "string \<Rightarrow> bool" where
  "terminalFailure v = (v = ''COLLISION'' \<or> v = ''ILLEGAL_STATE'' \<or> v = ''UNSUITABLE_PEER''
     \<or> v = ''VALIDATION_ERROR'')"

definition terminal :: "string \<Rightarrow> bool" where
  "terminal v = (v = ''STORED'' \<or> terminalFailure v)"

definition notifications :: "nat \<Rightarrow> (string \<times> string option) list \<Rightarrow> event list" where
  "notifications i ns = map (\<lambda>n. SubmissionStateUpdate i (fst n) (snd n)) ns"

definition idleTimers :: "RadixNodeConnection \<Rightarrow> (nat \<times> timer) list" where
  "idleTimers c = filter (\<lambda>e. snd e = IdleClose) (timers c)"

text \<open>
  Two connections used as examples: \<open>unsubscribed\<close>, after the bootstrap subscription of
  address \<open>A\<close> (subscriber 2) has been made and cancelled, \<open>submitted\<close>, after an atom has
  been submitted (subscriber 2) and the call has resolved, and \<open>stored\<close>, after the node has
  then pushed STORED for that submission.
\<close>

definition unsubscribed :: RadixNodeConnection where
  "unsubscribed =
     run [Subscribe ''A'', SubscribeResolved True, UnsubscribeSettled True ''A'' (Some 2)]
       newNodeConnection"

definition submitted :: RadixNodeConnection where
  "submitted = run [SubmitAtom, SubmitAtomResolved 2] newNodeConnection"

definition stored :: RadixNodeConnection where
  "stored = run (notifications 2 [(''STORED'', None)]) submitted"

section \<open>Properties of the transfer account system\<close>

subsection \<open>Keys of the maps\<close>

lemma has_update: "has (AList.update k v m) k' = (k' = k \<or> has m k')"
  by (simp add: has_def update_conv')

lemma has_delete: "has (AList.delete k m) k' = (k' \<noteq> k \<and> has m k')"
  by (simp add: has_def delete_conv')

lemma has_keys: "has m k = (k \<in> fst ` set m)"
  by (simp add: has_def map_of_eq_None_iff)

lemma disjointConsumables_iff:
  "disjointConsumables s =
     (\<forall>k. has (unspentConsumables s) k \<longrightarrow> \<not> has (spentConsumables s) k)"
  by (auto simp add: disjointConsumables_def list_all_iff has_keys)

subsection \<open>Storing one incoming transfer\<close>

text \<open>
  Claim C1: storing a not-yet-stored atom accumulates, for each owned non-fee particle, the
  delta \<open>+amount\<close> (UP) or \<open>-amount\<close> (DOWN) into the transaction's balance, so that storing
  \<open>a1\<close> (one owned UP particle of amount 100) gives the balance \<open>+100\<close> for \<open>T\<close>.
  The code does otherwise: the quantity of \<open>processStoreAtom\<close> starts at \<open>new BN(1)\<close>, not
  at 0 as in \<open>processDeleteAtom\<close>, and storing \<open>a1\<close> on the empty account \<open>X\<close> gives 101, in
  the transaction and in the account.
\<close>

theorem store_single_up_particle:
  "balance (processAtomUpdate (STORE a1) (newTransferAccountSystem ''X'')) = [(''T'', 101)]
 \<and> map (\<lambda>e. tx_balance (snd e))
       (transactions (processAtomUpdate (STORE a1) (newTransferAccountSystem ''X'')))
     = [[(''T'', 101)]]
 \<and> unspentConsumables (processAtomUpdate (STORE a1) (newTransferAccountSystem ''X''))
     = [(''p1'', p1)]"
  by code_simp

subsection \<open>A store followed by the delete of the same atom\<close>

text \<open>
  Claim C2: a STORE followed by the DELETE of the same atom leaves \<open>unspentConsumables\<close>,
  \<open>spentConsumables\<close> and \<open>balance\<close> as they were before the STORE.
  The code does otherwise on the empty account \<open>X\<close> with atom \<open>a1\<close>: the three were empty
  before; after the two updates the balance of \<open>T\<close> is 100 (the DELETE folds the inverted
  amounts into the stored transaction's own balance, 101 - 100 = 1, and subtracts that), and
  \<open>p1\<close>, created by the retracted atom, is recorded as spent.
\<close>

theorem store_then_delete_not_restored:
  "balance (newTransferAccountSystem ''X'') = []
 \<and> spentConsumables (newTransferAccountSystem ''X'') = []
 \<and> balance (processAtomUpdate (DELETE a1)
      (processAtomUpdate (STORE a1) (newTransferAccountSystem ''X''))) = [(''T'', 100)]
 \<and> unspentConsumables (processAtomUpdate (DELETE a1)
      (processAtomUpdate (STORE a1) (newTransferAccountSystem ''X''))) = []
 \<and> spentConsumables (processAtomUpdate (DELETE a1)
      (processAtomUpdate (STORE a1) (newTransferAccountSystem ''X''))) = [(''p1'', p1)]"
  by code_simp

subsection \<open>Redundant events\<close>

text \<open>
  Claim C4: a STORE whose atom \<open>hid\<close> is already in \<open>transactions\<close> and a DELETE whose atom
  \<open>hid\<close> is not there leave the whole state as it is; the two subjects are part of the state,
  so nothing is emitted on them.
\<close>

theorem duplicate_store_orphan_delete:
  "(action u = ''STORE'' \<and> has (transactions s) (hid (atom u)) \<longrightarrow> processAtomUpdate u s = s)
 \<and> (action u = ''DELETE'' \<and> \<not> has (transactions s) (hid (atom u)) \<longrightarrow> processAtomUpdate u s = s)"
  by (auto simp add: processAtomUpdate_def processStoreAtom_def processDeleteAtom_def has_def)

theorem duplicate_store_orphan_delete_witness:
  "action (STORE a1) = ''STORE''
 \<and> has (transactions (processAtomUpdate (STORE a1) (newTransferAccountSystem ''X'')))
       (hid (atom (STORE a1)))
 \<and> processAtomUpdate (STORE a1) (processAtomUpdate (STORE a1) (newTransferAccountSystem ''X''))
     = processAtomUpdate (STORE a1) (newTransferAccountSystem ''X'')
 \<and> action (DELETE a1) = ''DELETE''
 \<and> \<not> has (transactions (newTransferAccountSystem ''X'')) (hid (atom (DELETE a1)))
 \<and> processAtomUpdate (DELETE a1) (newTransferAccountSystem ''X'') = newTransferAccountSystem ''X''"
proof -
  have s1: "action (STORE a1) = ''STORE''" by (simp add: STORE_def)
  have s2: "has (transactions (processAtomUpdate (STORE a1) (newTransferAccountSystem ''X'')))
       (hid (atom (STORE a1)))" by code_simp
  have d1: "action (DELETE a1) = ''DELETE''" by (simp add: DELETE_def)
  have d2: "\<not> has (transactions (newTransferAccountSystem ''X'')) (hid (atom (DELETE a1)))"
    by code_simp
  show ?thesis
    using s1 s2 d1 d2
      duplicate_store_orphan_delete [of "STORE a1"
        "processAtomUpdate (STORE a1) (newTransferAccountSystem ''X'')"]
      duplicate_store_orphan_delete [of "DELETE a1" "newTransferAccountSystem ''X''"]
    by simp
qed

text \<open>
  Claim C10: an update whose action is neither \<open>'STORE'\<close> nor \<open>'DELETE'\<close> leaves
  \<open>transactions\<close>, \<open>balance\<close>, \<open>unspentConsumables\<close> and \<open>spentConsumables\<close> unchanged and
  emits nothing: the state after it is the state before it.
\<close>

theorem other_action_unchanged:
  "action u \<noteq> ''STORE'' \<Longrightarrow> action u \<noteq> ''DELETE'' \<Longrightarrow> processAtomUpdate u s = s"
  by (simp add: processAtomUpdate_def)

theorem other_action_unchanged_witness:
  "action ((STORE a1)\<lparr>action := ''UPDATE''\<rparr>) \<noteq> ''STORE''
 \<and> action ((STORE a1)\<lparr>action := ''UPDATE''\<rparr>) \<noteq> ''DELETE''
 \<and> processAtomUpdate ((STORE a1)\<lparr>action := ''UPDATE''\<rparr>)
      (processAtomUpdate (STORE a1) (newTransferAccountSystem ''X''))
   = processAtomUpdate (STORE a1) (newTransferAccountSystem ''X'')"
  using other_action_unchanged [of "(STORE a1)\<lparr>action := ''UPDATE''\<rparr>"
      "processAtomUpdate (STORE a1) (newTransferAccountSystem ''X'')"]
  by simp

subsection \<open>Unspent and spent consumables are disjoint\<close>

lemma storeConsumable_disjoint:
  "disjointConsumables (fst st) \<Longrightarrow> disjointConsumables (fst (storeConsumable c st))"
  by (cases c; cases "fst c")
     (auto simp add: storeConsumable_def Let_def disjointConsumables_iff has_update has_delete)

lemma deleteConsumable_disjoint:
  "disjointConsumables (fst st) \<Longrightarrow> disjointConsumables (fst (deleteConsumable c st))"
  by (cases c; cases "fst c")
     (auto simp add: deleteConsumable_def Let_def disjointConsumables_iff has_update has_delete)

lemma fold_storeConsumable_disjoint:
  "disjointConsumables (fst st) \<Longrightarrow> disjointConsumables (fst (fold storeConsumable cs st))"
  by (induction cs arbitrary: st) (simp_all add: storeConsumable_disjoint)

lemma fold_deleteConsumable_disjoint:
  "disjointConsumables (fst st) \<Longrightarrow> disjointConsumables (fst (fold deleteConsumable cs st))"
  by (induction cs arbitrary: st) (simp_all add: deleteConsumable_disjoint)

lemma processStoreAtom_disjoint:
  "disjointConsumables s \<Longrightarrow> disjointConsumables (processStoreAtom u s)"
  using fold_storeConsumable_disjoint [of "(s, newTransaction u)" "getSpunParticlesOfType (atom u)"]
  by (simp add: processStoreAtom_def Let_def disjointConsumables_def)

lemma processDeleteAtom_disjoint:
  assumes "disjointConsumables s"
  shows "disjointConsumables (processDeleteAtom u s)"
proof (cases "map_of (transactions s) (hid (atom u))")
  case None
  then show ?thesis using assms by (simp add: processDeleteAtom_def)
next
  case (Some t0)
  then show ?thesis
    using assms fold_deleteConsumable_disjoint [of "(s, t0)" "getSpunParticlesOfType (atom u)"]
    by (simp add: processDeleteAtom_def Let_def disjointConsumables_def)
qed

text \<open>
  Claim C5: every \<open>processAtomUpdate\<close> preserves that no particle id is a key of both
  \<open>unspentConsumables\<close> and \<open>spentConsumables\<close>; and the store of an UP-spin particle whose
  id is a key of \<open>spentConsumables\<close> leaves \<open>unspentConsumables\<close> as it is.
\<close>

theorem consumables_stay_disjoint:
  assumes "disjointConsumables s"
  shows "disjointConsumables (processAtomUpdate u s)
       \<and> (has (spentConsumables s) (particle_id p) \<longrightarrow>
            unspentConsumables (fst (storeConsumable (UP, p) (s, t))) = unspentConsumables s)"
  using assms
  by (simp add: processAtomUpdate_def processStoreAtom_disjoint processDeleteAtom_disjoint
        storeConsumable_def Let_def)

theorem consumables_stay_disjoint_witness:
  "disjointConsumables (processAll [STORE a1, STORE a2] (newTransferAccountSystem ''X''))
 \<and> disjointConsumables (processAtomUpdate (DELETE a2)
      (processAll [STORE a1, STORE a2] (newTransferAccountSystem ''X'')))
 \<and> has (spentConsumables (processAll [STORE a1, STORE a2] (newTransferAccountSystem ''X'')))
      (particle_id p1)
 \<and> unspentConsumables (fst (storeConsumable (UP, p1)
      (processAll [STORE a1, STORE a2] (newTransferAccountSystem ''X''),
       newTransaction (STORE a1))))
   = unspentConsumables (processAll [STORE a1, STORE a2] (newTransferAccountSystem ''X''))"
proof -
  have d: "disjointConsumables (processAll [STORE a1, STORE a2] (newTransferAccountSystem ''X''))"
    by code_simp
  have h: "has (spentConsumables
      (processAll [STORE a1, STORE a2] (newTransferAccountSystem ''X''))) (particle_id p1)"
    by code_simp
  show ?thesis
    using d h consumables_stay_disjoint [OF d, of "DELETE a2" p1 "newTransaction (STORE a1)"]
    by simp
qed

subsection \<open>The balance and the stored transactions\<close>

lemma balanceAt_Cons:
  "balanceAt ((k', v) # b) k = (if k = k' then v else balanceAt b k)"
  by (simp add: balanceAt_def)

lemma balanceAt_absent: "k \<notin> fst ` set b \<Longrightarrow> balanceAt b k = 0"
  by (simp add: balanceAt_def map_of_eq_None_iff [THEN iffD2])

lemma map_of_initZero:
  "map_of (initZero k m) k' = (if k' = k \<and> \<not> has m k then Some 0 else map_of m k')"
  by (simp add: initZero_def update_conv' has_def)

lemma balanceAt_iaddAt:
  "balanceAt (iaddAt k q b) k' = balanceAt b k' + (if k' = k then q else 0)"
  by (auto simp add: balanceAt_def iaddAt_def map_of_map_entry map_of_initZero has_def
        split: option.splits)

lemma distinct_iaddAt:
  "distinct (map fst b) \<Longrightarrow> distinct (map fst (iaddAt k q b))"
  by (simp add: iaddAt_def initZero_def distinct_map_entry distinct_update)

lemma balanceAt_addBalance:
  "distinct (map fst tb) \<Longrightarrow> balanceAt (addBalance tb b) k = balanceAt b k + balanceAt tb k"
proof (induction tb arbitrary: b)
  case Nil
  then show ?case by (simp add: balanceAt_def)
next
  case (Cons e tb)
  obtain k' v where e: "e = (k', v)" by (cases e)
  from Cons.prems e have notin: "k' \<notin> fst ` set tb" and d: "distinct (map fst tb)"
    by auto
  have "balanceAt (addBalance (e # tb) b) k = balanceAt (iaddAt k' v b) k + balanceAt tb k"
    using Cons.IH [OF d] e by simp
  also have "\<dots> = balanceAt b k + (if k = k' then v else 0) + balanceAt tb k"
    by (simp add: balanceAt_iaddAt)
  also have "\<dots> = balanceAt b k + balanceAt (e # tb) k"
    using notin e by (simp add: balanceAt_Cons balanceAt_absent)
  finally show ?case .
qed

lemma update_absent: "\<not> has m k \<Longrightarrow> AList.update k v m = m @ [(k, v)]"
  by (induction m) (auto simp add: has_def)

lemma storeConsumable_frame:
  "transactions (fst (storeConsumable c st)) = transactions (fst st)
 \<and> balance (fst (storeConsumable c st)) = balance (fst st)
 \<and> (distinct (map fst (tx_balance (snd st))) \<longrightarrow>
      distinct (map fst (tx_balance (snd (storeConsumable c st)))))"
  by (cases "fst c") (simp_all add: storeConsumable_def Let_def distinct_iaddAt)

lemma fold_storeConsumable_frame:
  "transactions (fst (fold storeConsumable cs st)) = transactions (fst st)
 \<and> balance (fst (fold storeConsumable cs st)) = balance (fst st)
 \<and> (distinct (map fst (tx_balance (snd st))) \<longrightarrow>
      distinct (map fst (tx_balance (snd (fold storeConsumable cs st)))))"
proof (induction cs arbitrary: st)
  case Nil
  then show ?case by simp
next
  case (Cons c cs)
  show ?case
    using Cons.IH [of "storeConsumable c st"] storeConsumable_frame [of c st] by simp
qed

lemma processStoreAtom_consistent:
  assumes "\<forall>k. balanceAt (balance s) k = sumTransactions s k"
  shows "balanceAt (balance (processStoreAtom u s)) k = sumTransactions (processStoreAtom u s) k"
proof (cases "has (transactions s) (hid (atom u))")
  case True
  then show ?thesis using assms by (simp add: processStoreAtom_def)
next
  case False
  define st where
    "st = fold storeConsumable (getSpunParticlesOfType (atom u)) (s, newTransaction u)"
  have fr: "transactions (fst st) = transactions s" "balance (fst st) = balance s"
    "distinct (map fst (tx_balance (snd st)))"
    using fold_storeConsumable_frame [of "getSpunParticlesOfType (atom u)" "(s, newTransaction u)"]
    by (simp_all add: st_def newTransaction_def Let_def split: option.splits)
  have tr: "transactions (processStoreAtom u s) = transactions s @ [(hid (atom u), snd st)]"
    using False fr by (simp add: processStoreAtom_def Let_def st_def [symmetric] update_absent)
  have ba: "balance (processStoreAtom u s) = addBalance (tx_balance (snd st)) (balance s)"
    using False fr by (simp add: processStoreAtom_def Let_def st_def [symmetric])
  show ?thesis
    using assms fr(3)
    by (simp add: sumTransactions_def tr ba balanceAt_addBalance)
qed

lemma processAll_consistent:
  "\<forall>k. balanceAt (balance s) k = sumTransactions s k
     \<Longrightarrow> list_all (\<lambda>u. action u \<noteq> ''DELETE'') us
     \<Longrightarrow> balanceAt (balance (processAll us s)) k = sumTransactions (processAll us s) k"
proof (induction us arbitrary: s)
  case Nil
  then show ?case by (simp add: processAll_def)
next
  case (Cons u us)
  from Cons.prems
  have "\<forall>k. balanceAt (balance (processAtomUpdate u s)) k = sumTransactions (processAtomUpdate u s) k"
    by (simp add: processAtomUpdate_def processStoreAtom_consistent)
  with Cons show ?case by (simp add: processAll_def)
qed

text \<open>
  Claim C3: in every state reachable from the empty account by \<open>processAtomUpdate\<close> calls,
  the balance of each token class is the sum of the stored transactions' balances for it and
  the sum of the amounts of the unspent consumables of that class.
  The claim fails. Atom \<open>a2\<close> stored before \<open>a1\<close> (a DOWN spin seen before its UP, the case the
  test of \<open>spentConsumables\<close> on line 106 is there for) leaves the balance of \<open>T\<close> negative,
  at -68, with the unspent \<open>p2\<close> of amount 30; and after the store and the delete of \<open>a1\<close> no
  transaction is stored while the balance of \<open>T\<close> is 100.
\<close>

theorem balance_invariant_counterexample:
  "balanceAt (balance (processAll [STORE a2] (newTransferAccountSystem ''X''))) ''T'' = - 68
 \<and> sumUnspent (processAll [STORE a2] (newTransferAccountSystem ''X'')) ''T'' = 30
 \<and> balanceAt (balance (processAll [STORE a2] (newTransferAccountSystem ''X''))) ''T''
     \<noteq> sumUnspent (processAll [STORE a2] (newTransferAccountSystem ''X'')) ''T''
 \<and> balanceAt (balance (processAll [STORE a1, DELETE a1] (newTransferAccountSystem ''X''))) ''T''
     = 100
 \<and> sumTransactions (processAll [STORE a1, DELETE a1] (newTransferAccountSystem ''X'')) ''T'' = 0
 \<and> balanceAt (balance (processAll [STORE a1, DELETE a1] (newTransferAccountSystem ''X''))) ''T''
     \<noteq> sumTransactions (processAll [STORE a1, DELETE a1] (newTransferAccountSystem ''X'')) ''T''"
  by code_simp

text \<open>
  Claim C3, as amended: in every state reachable from the empty account by a sequence of
  \<open>processAtomUpdate\<close> calls none of which is a DELETE, the balance of each token class (0 when
  the class has no entry) is the sum of the stored transactions' balances for that class.
\<close>

theorem balance_is_sum_of_stored_transactions:
  assumes "list_all (\<lambda>u. action u \<noteq> ''DELETE'') us"
  shows "balanceAt (balance (processAll us (newTransferAccountSystem a))) k
       = sumTransactions (processAll us (newTransferAccountSystem a)) k"
proof -
  have "\<forall>k. balanceAt (balance (newTransferAccountSystem a)) k
      = sumTransactions (newTransferAccountSystem a) k"
    by (simp add: newTransferAccountSystem_def sumTransactions_def balanceAt_def)
  then show ?thesis
    using assms by (rule processAll_consistent)
qed

theorem balance_is_sum_of_stored_transactions_witness:
  "list_all (\<lambda>u. action u \<noteq> ''DELETE'') [STORE a1, STORE a2]
 \<and> balanceAt (balance (processAll [STORE a1, STORE a2] (newTransferAccountSystem ''X''))) ''T''
     = sumTransactions (processAll [STORE a1, STORE a2] (newTransferAccountSystem ''X'')) ''T''
 \<and> sumTransactions (processAll [STORE a1, STORE a2] (newTransferAccountSystem ''X'')) ''T'' = 33"
proof -
  have h: "list_all (\<lambda>u. action u \<noteq> ''DELETE'') [STORE a1, STORE a2]"
    by (simp add: STORE_def)
  have v: "sumTransactions (processAll [STORE a1, STORE a2] (newTransferAccountSystem ''X'')) ''T''
      = 33"
    by code_simp
  show ?thesis
    using h v balance_is_sum_of_stored_transactions [OF h, of "''X''" "''T''"] by simp
qed

section \<open>Properties of the node connection\<close>

subsection \<open>The idle close\<close>

lemma idleTimers_next:
  "idleTimers (numberOfSubscriptions_next v c) =
     idleTimers c @ (if v \<le> 0 then [(clock c + 5000, IdleClose)] else [])"
  by (simp add: idleTimers_def numberOfSubscriptions_next_def)

lemma idleTimers_clearTimeout: "idleTimers (clearTimeout i c) = idleTimers c"
proof -
  have "filter (\<lambda>e. snd e = IdleClose) (filter (\<lambda>e. snd e \<noteq> SubmitTimeout i) ts)
      = filter (\<lambda>e. snd e = IdleClose) ts" for ts :: "(nat \<times> timer) list"
    by (induction ts) auto
  then show ?thesis by (simp add: idleTimers_def clearTimeout_def)
qed

lemma idleTimers_frame [simp]:
  "idleTimers (c\<lparr>atomUpdateSubjects := x\<rparr>) = idleTimers c"
  "idleTimers (c\<lparr>subscriptions := y\<rparr>) = idleTimers c"
  "idleTimers (c\<lparr>addressSubscriptions := z\<rparr>) = idleTimers c"
  "idleTimers (c\<lparr>lastSubscriberId := n\<rparr>) = idleTimers c"
  by (simp_all add: idleTimers_def)

lemma fold_fireTimer_timers:
  "timers (fold fireTimer ts c) = timers c \<and> clock (fold fireTimer ts c) = clock c
 \<and> numberOfSubscriptions (fold fireTimer ts c) = numberOfSubscriptions c
 \<and> closeCalls (fold fireTimer ts c) = closeCalls c + length (filter (\<lambda>t. t = IdleClose) ts)
 \<and> socketCloseCalls (fold fireTimer ts c) = socketCloseCalls c + length ts"
proof (induction ts arbitrary: c)
  case Nil
  then show ?case by simp
next
  case (Cons t ts)
  show ?case using Cons.IH [of "fireTimer t c"] by (cases t) simp_all
qed

lemma idle_step:
  assumes "\<And>dt. e \<noteq> Advance dt"
  shows "\<exists>new. idleTimers (step e c) = idleTimers c @ new"
proof (cases e)
  case (Subscribe a)
  then show ?thesis by (simp add: subscribe_def getSubscriberId_def Let_def)
next
  case (SubscribeResolved f)
  then show ?thesis by (simp add: subscribe_resolved_def idleTimers_next)
next
  case (SubscribeRejected i er)
  then show ?thesis by (simp add: subscribe_rejected_def)
next
  case (UnsubscribeSettled ok a i)
  then show ?thesis
    by (simp add: unsubscribe_settled_def Let_def idleTimers_next split: option.splits)
next
  case UnsubscribeAllResolved
  then show ?thesis by (simp add: unsubscribeAll_resolved_def idleTimers_next)
next
  case SubmitAtom
  then show ?thesis by (simp add: submitAtom_def getSubscriberId_def Let_def idleTimers_def)
next
  case (SubmitAtomResolved i)
  then show ?thesis
    by (simp add: submitAtom_resolved_def Let_def idleTimers_next idleTimers_clearTimeout)
next
  case (SubmitAtomRejected i er)
  then show ?thesis
    by (simp add: submitAtom_rejected_def Let_def idleTimers_next idleTimers_clearTimeout)
next
  case (SubmissionStateUpdate i v m)
  then show ?thesis
    by (simp add: onAtomSubmissionStateUpdate_def idleTimers_next split: option.splits)
next
  case SocketClosed
  then show ?thesis by (simp add: onClosed_def idleTimers_def)
next
  case (Advance dt)
  with assms [of dt] show ?thesis by simp
qed

lemma filter_idle_due:
  "length (filter (\<lambda>t. t = IdleClose) (map snd (filter (\<lambda>e. fst e \<le> n) ts)))
     = length (filter (\<lambda>e. fst e \<le> n) (filter (\<lambda>e. snd e = IdleClose) ts))"
  by (induction ts) auto

lemma idle_advance:
  "idleTimers (advance dt c) = filter (\<lambda>e. \<not> fst e \<le> clock c + dt) (idleTimers c)
 \<and> closeCalls (advance dt c)
     = closeCalls c + length (filter (\<lambda>e. fst e \<le> clock c + dt) (idleTimers c))"
proof -
  define n where "n = clock c + dt"
  define c0 where "c0 = c\<lparr>clock := n, timers := filter (\<lambda>e. \<not> fst e \<le> n) (timers c)\<rparr>"
  define due where "due = map snd (filter (\<lambda>e. fst e \<le> n) (timers c))"
  have adv: "advance dt c = fold fireTimer due c0"
    by (simp add: advance_def Let_def c0_def due_def n_def)
  have comm: "filter (\<lambda>e. snd e = IdleClose) (filter (\<lambda>e. \<not> fst e \<le> n) ts)
      = filter (\<lambda>e. \<not> fst e \<le> n) (filter (\<lambda>e. snd e = IdleClose) ts)"
    for ts :: "(nat \<times> timer) list"
    by (induction ts) auto
  have t: "timers (advance dt c) = filter (\<lambda>e. \<not> fst e \<le> n) (timers c)"
    using fold_fireTimer_timers [of due c0] by (simp add: adv c0_def)
  have k: "closeCalls (advance dt c) = closeCalls c + length (filter (\<lambda>t. t = IdleClose) due)"
    using fold_fireTimer_timers [of due c0] by (simp add: adv c0_def)
  have "idleTimers (advance dt c) = filter (\<lambda>e. \<not> fst e \<le> n) (idleTimers c)"
    unfolding idleTimers_def t by (rule comm)
  moreover have "closeCalls (advance dt c)
      = closeCalls c + length (filter (\<lambda>e. fst e \<le> n) (idleTimers c))"
    unfolding k due_def idleTimers_def by (simp only: filter_idle_due)
  ultimately show ?thesis unfolding n_def by simp
qed

text \<open>
  Claim C6: the count of active work is never negative; when it reaches 0 a 5-second timer
  is armed and exactly one \<open>close()\<close> occurs at its expiry; and if the count becomes positive
  again during those 5 seconds the pending close is cancelled.
  The claim fails. On a fresh connection, the bootstrap subscription of \<open>A\<close> followed by a
  rejected and then a resolved \<open>unsubscribe\<close> leaves the count at -1, and 5 seconds later
  \<open>close()\<close> has been called twice. And when the count goes back to 1 one second after it
  reached 0 (a second subscription), \<open>close()\<close> is still called at the expiry, with the
  count at 1.
\<close>

theorem idle_close_counterexample:
  "numberOfSubscriptions
     (run [Subscribe ''A'', SubscribeResolved True, UnsubscribeSettled False ''A'' (Some 2),
           UnsubscribeSettled True ''A'' (Some 2)] newNodeConnection) = - 1
 \<and> closeCalls
     (run [Subscribe ''A'', SubscribeResolved True, UnsubscribeSettled False ''A'' (Some 2),
           UnsubscribeSettled True ''A'' (Some 2), Advance 5000] newNodeConnection) = 2
 \<and> numberOfSubscriptions unsubscribed = 0
 \<and> numberOfSubscriptions
     (run [Advance 1000, Subscribe ''B'', SubscribeResolved False] unsubscribed) = 1
 \<and> closeCalls (run [Advance 1000, Subscribe ''B'', SubscribeResolved False] unsubscribed) = 0
 \<and> numberOfSubscriptions
     (run [Advance 1000, Subscribe ''B'', SubscribeResolved False, Advance 4000] unsubscribed) = 1
 \<and> closeCalls
     (run [Advance 1000, Subscribe ''B'', SubscribeResolved False, Advance 4000] unsubscribed) = 1"
  by code_simp

text \<open>
  Claim C6, as amended: every publication of a count \<open>v <= 0\<close> arms a timer of 5000 ms and a
  publication of a positive count arms none; no event other than the passing of time removes
  a pending idle timer (nothing cancels it, whatever the count becomes); and when time passes,
  each idle timer whose deadline is reached calls \<open>close()\<close> once and the others stay
  pending. The count itself has no lower bound: a settled \<open>unsubscribe\<close> decrements it
  whatever its value.
\<close>

theorem idle_close_never_cancelled:
  "idleTimers (numberOfSubscriptions_next v c)
     = idleTimers c @ (if v \<le> 0 then [(clock c + 5000, IdleClose)] else [])
 \<and> ((\<forall>dt. e \<noteq> Advance dt) \<longrightarrow> (\<exists>new. idleTimers (step e c) = idleTimers c @ new))
 \<and> idleTimers (step (Advance dt) c) = filter (\<lambda>e. \<not> fst e \<le> clock c + dt) (idleTimers c)
 \<and> closeCalls (step (Advance dt) c)
     = closeCalls c + length (filter (\<lambda>e. fst e \<le> clock c + dt) (idleTimers c))
 \<and> numberOfSubscriptions (step (UnsubscribeSettled ok addr subscriberId) c)
     = numberOfSubscriptions c - 1"
proof -
  have "numberOfSubscriptions (unsubscribe_settled ok addr subscriberId c)
      = numberOfSubscriptions c - 1"
    by (simp add: unsubscribe_settled_def numberOfSubscriptions_next_def Let_def
          split: option.splits)
  then show ?thesis
    using idle_step [of e c] idle_advance [of dt c] by (simp add: idleTimers_next)
qed

theorem idle_close_never_cancelled_witness:
  "(\<forall>dt. SubscribeResolved False \<noteq> Advance dt)
 \<and> idleTimers unsubscribed = [(5000, IdleClose)]
 \<and> (\<exists>new. idleTimers (step (SubscribeResolved False) unsubscribed)
        = idleTimers unsubscribed @ new)
 \<and> idleTimers (step (Advance 5000) unsubscribed) = []
 \<and> closeCalls (step (Advance 5000) unsubscribed) = 1
 \<and> numberOfSubscriptions (step (UnsubscribeSettled False ''A'' None) unsubscribed) = - 1"
proof -
  have h: "\<forall>dt. SubscribeResolved False \<noteq> Advance dt" by simp
  have t: "idleTimers unsubscribed = [(5000, IdleClose)]" by code_simp
  have k: "clock unsubscribed = 0" "closeCalls unsubscribed = 0"
    "numberOfSubscriptions unsubscribed = 0" by code_simp+
  show ?thesis
    using h t k
      idle_close_never_cancelled [of 0 unsubscribed "SubscribeResolved False" 5000
        False "''A''" None]
    by simp
qed

subsection \<open>Notifications of the state of a submission\<close>

lemma nonTerminal_update:
  assumes "map_of (atomUpdateSubjects c) i = Some sj" and "status sj = Active"
    and "nonTerminal v"
  shows "onAtomSubmissionStateUpdate i v m c =
     Inr (c\<lparr>atomUpdateSubjects :=
             AList.update i (sj\<lparr>emitted := emitted sj @ [v]\<rparr>) (atomUpdateSubjects c)\<rparr>)"
  using assms by (auto simp add: onAtomSubmissionStateUpdate_def nonTerminal_def subject_next_def)

lemma stored_update:
  assumes "map_of (atomUpdateSubjects c) i = Some sj" and "status sj = Active"
  shows "onAtomSubmissionStateUpdate i ''STORED'' m c =
     Inr (numberOfSubscriptions_next (numberOfSubscriptions c - 1)
       (c\<lparr>atomUpdateSubjects :=
            AList.update i (sj\<lparr>emitted := emitted sj @ [''STORED''], status := Completed\<rparr>)
              (atomUpdateSubjects c)\<rparr>))"
  using assms
  by (simp add: onAtomSubmissionStateUpdate_def subject_next_def subject_complete_def)

lemma failure_update:
  assumes "map_of (atomUpdateSubjects c) i = Some sj" and "status sj = Active"
    and "terminalFailure v"
  shows "onAtomSubmissionStateUpdate i v m c =
     Inr (numberOfSubscriptions_next (numberOfSubscriptions c - 1)
       (c\<lparr>atomUpdateSubjects :=
            AList.update i (sj\<lparr>status := Errored (v @ '': '' @ messageText m)\<rparr>)
              (atomUpdateSubjects c)\<rparr>))"
  using assms
  by (auto simp add: onAtomSubmissionStateUpdate_def terminalFailure_def subject_error_def)

lemma nonTerminal_not_terminal: "nonTerminal v \<Longrightarrow> \<not> terminal v"
  by (auto simp add: nonTerminal_def terminal_def terminalFailure_def)

lemma stopped_subject:
  "status sj \<noteq> Active \<Longrightarrow>
     subject_next v sj = sj \<and> subject_error e sj = sj \<and> subject_complete sj = sj"
  by (simp add: subject_next_def subject_error_def subject_complete_def)

lemma stopped_nonTerminal_update:
  assumes "map_of (atomUpdateSubjects c) i = Some sj" and "status sj \<noteq> Active"
    and "nonTerminal v"
  shows "onAtomSubmissionStateUpdate i v m c = Inr c"
  using assms
  by (auto simp add: onAtomSubmissionStateUpdate_def nonTerminal_def stopped_subject update_triv)

lemma stopped_terminal_update:
  assumes "map_of (atomUpdateSubjects c) i = Some sj" and "status sj \<noteq> Active"
    and "terminal v"
  shows "onAtomSubmissionStateUpdate i v m c =
     Inr (numberOfSubscriptions_next (numberOfSubscriptions c - 1) c)"
  using assms
  by (auto simp add: onAtomSubmissionStateUpdate_def terminal_def terminalFailure_def
        stopped_subject update_triv)

lemma step_notification:
  assumes "map_of (atomUpdateSubjects c) i = Some sj"
  shows "(\<exists>sj'. map_of (atomUpdateSubjects (step (SubmissionStateUpdate i v m) c)) i = Some sj')
       \<and> numberOfSubscriptions (step (SubmissionStateUpdate i v m) c)
           = numberOfSubscriptions c - (if terminal v then 1 else 0)"
  using assms
  by (auto simp add: onAtomSubmissionStateUpdate_def terminal_def terminalFailure_def
        numberOfSubscriptions_next_def update_conv')

lemma run_notifications_count:
  assumes "map_of (atomUpdateSubjects c) i = Some sj"
  shows "numberOfSubscriptions (run (notifications i ns) c)
       = numberOfSubscriptions c - int (length (filter (\<lambda>n. terminal (fst n)) ns))"
  using assms
proof (induction ns arbitrary: c sj)
  case Nil
  then show ?case by (simp add: run_def notifications_def)
next
  case (Cons n ns)
  define c' where "c' = step (SubmissionStateUpdate i (fst n) (snd n)) c"
  obtain sj' where m: "map_of (atomUpdateSubjects c') i = Some sj'"
    and k: "numberOfSubscriptions c' = numberOfSubscriptions c - (if terminal (fst n) then 1 else 0)"
    using step_notification [OF Cons.prems, of "fst n" "snd n"] unfolding c'_def by blast
  have r: "run (notifications i (n # ns)) c = run (notifications i ns) c'"
    by (simp add: run_def notifications_def c'_def)
  show ?case using Cons.IH [OF m] k by (simp add: r)
qed

text \<open>
  Claim C7: a terminal notification decrements the count exactly once over the life of a
  submission, non-terminal notifications are forwarded to the stream without changing the
  count, and a terminal failure is surfaced on the stream as \<open><CODE>: <message>\<close>.
  The claim fails for every stream: the handler decrements on each terminal notification
  with no test of the stream. On \<open>submitted\<close> (count 2) two STORED notifications bring the
  count to 0 and arm the idle close; and once the stream has completed, a COLLISION is not
  surfaced on it, though it decrements the count, and a SUBMITTING is not forwarded.
\<close>

theorem submission_state_updates_counterexample:
  "numberOfSubscriptions submitted = 2
 \<and> numberOfSubscriptions
     (run (notifications 2 [(''STORED'', None), (''STORED'', None)]) submitted) = 0
 \<and> idleTimers (run (notifications 2 [(''STORED'', None), (''STORED'', None)]) submitted)
     = [(5000, IdleClose)]
 \<and> map_of (atomUpdateSubjects
       (run (notifications 2 [(''STORED'', None), (''COLLISION'', Some ''duplicate'')]) submitted)) 2
     = Some \<lparr>emitted = [''CREATED'', ''SUBMITTED'', ''STORED''], status = Completed\<rparr>
 \<and> numberOfSubscriptions
     (run (notifications 2 [(''STORED'', None), (''COLLISION'', Some ''duplicate'')]) submitted) = 0
 \<and> map_of (atomUpdateSubjects
       (run (notifications 2 [(''STORED'', None), (''SUBMITTING'', None)]) submitted)) 2
     = Some \<lparr>emitted = [''CREATED'', ''SUBMITTED'', ''STORED''], status = Completed\<rparr>"
  by code_simp

text \<open>
  Claim C7, as amended: for a submission whose stream is registered, every terminal
  notification (STORED or a failure code) decrements the count by one and a non-terminal one
  (SUBMITTING, SUBMITTED) never changes it, so that over any sequence of notifications the
  count goes down by the number of terminal notifications received: by exactly one when the
  node pushes non-terminal notifications followed by a single terminal one. While the stream
  is still active, a non-terminal notification is forwarded to it and changes nothing else,
  STORED is forwarded and completes it, and a terminal failure errors it with the text
  \<open><CODE>: <message>\<close>. On a stream that has already stopped nothing is forwarded or
  surfaced: a non-terminal notification changes nothing and a terminal one only decrements
  the count.
\<close>

theorem submission_state_updates:
  assumes "map_of (atomUpdateSubjects c) i = Some sj"
  shows "(status sj = Active \<longrightarrow>
           (nonTerminal v \<longrightarrow>
             onAtomSubmissionStateUpdate i v m c =
               Inr (c\<lparr>atomUpdateSubjects :=
                 AList.update i (sj\<lparr>emitted := emitted sj @ [v]\<rparr>) (atomUpdateSubjects c)\<rparr>))
         \<and> onAtomSubmissionStateUpdate i ''STORED'' m c =
             Inr (numberOfSubscriptions_next (numberOfSubscriptions c - 1)
               (c\<lparr>atomUpdateSubjects :=
                 AList.update i (sj\<lparr>emitted := emitted sj @ [''STORED''], status := Completed\<rparr>)
                   (atomUpdateSubjects c)\<rparr>))
         \<and> (terminalFailure v \<longrightarrow>
             onAtomSubmissionStateUpdate i v (Some msg) c =
               Inr (numberOfSubscriptions_next (numberOfSubscriptions c - 1)
                 (c\<lparr>atomUpdateSubjects :=
                   AList.update i (sj\<lparr>status := Errored (v @ '': '' @ msg)\<rparr>)
                     (atomUpdateSubjects c)\<rparr>))))
       \<and> (status sj \<noteq> Active \<longrightarrow>
           (nonTerminal v \<longrightarrow> onAtomSubmissionStateUpdate i v m c = Inr c)
         \<and> (terminal v \<longrightarrow>
             onAtomSubmissionStateUpdate i v m c =
               Inr (numberOfSubscriptions_next (numberOfSubscriptions c - 1) c)))
       \<and> numberOfSubscriptions (run (notifications i ns) c)
           = numberOfSubscriptions c - int (length (filter (\<lambda>n. terminal (fst n)) ns))
       \<and> (list_all (\<lambda>n. nonTerminal (fst n)) ns \<and> terminal t \<longrightarrow>
           numberOfSubscriptions (run (notifications i (ns @ [(t, m)])) c)
             = numberOfSubscriptions c - 1)"
proof -
  have a1: "onAtomSubmissionStateUpdate i v m c =
      Inr (c\<lparr>atomUpdateSubjects :=
        AList.update i (sj\<lparr>emitted := emitted sj @ [v]\<rparr>) (atomUpdateSubjects c)\<rparr>)"
    if "status sj = Active" "nonTerminal v"
    using nonTerminal_update [OF assms that] .
  have a2: "onAtomSubmissionStateUpdate i ''STORED'' m c =
      Inr (numberOfSubscriptions_next (numberOfSubscriptions c - 1)
        (c\<lparr>atomUpdateSubjects :=
          AList.update i (sj\<lparr>emitted := emitted sj @ [''STORED''], status := Completed\<rparr>)
            (atomUpdateSubjects c)\<rparr>))"
    if "status sj = Active"
    using stored_update [OF assms that] .
  have a3: "onAtomSubmissionStateUpdate i v (Some msg) c =
      Inr (numberOfSubscriptions_next (numberOfSubscriptions c - 1)
        (c\<lparr>atomUpdateSubjects :=
          AList.update i (sj\<lparr>status := Errored (v @ '': '' @ msg)\<rparr>)
            (atomUpdateSubjects c)\<rparr>))"
    if "status sj = Active" "terminalFailure v"
    using failure_update [OF assms that, of "Some msg"] by (simp add: messageText_def)
  have b1: "onAtomSubmissionStateUpdate i v m c = Inr c"
    if "status sj \<noteq> Active" "nonTerminal v"
    using stopped_nonTerminal_update [OF assms that] .
  have b2: "onAtomSubmissionStateUpdate i v m c =
      Inr (numberOfSubscriptions_next (numberOfSubscriptions c - 1) c)"
    if "status sj \<noteq> Active" "terminal v"
    using stopped_terminal_update [OF assms that] .
  have cnt: "numberOfSubscriptions (run (notifications i ns) c)
      = numberOfSubscriptions c - int (length (filter (\<lambda>n. terminal (fst n)) ns))" for ns
    using run_notifications_count [OF assms] .
  have life: "numberOfSubscriptions (run (notifications i (ns @ [(t, m)])) c)
      = numberOfSubscriptions c - 1"
    if ns: "list_all (\<lambda>n. nonTerminal (fst n)) ns" and t: "terminal t"
  proof -
    have "filter (\<lambda>n. terminal (fst n)) ns = []"
      using ns by (induction ns) (auto simp add: nonTerminal_not_terminal)
    then show ?thesis using cnt [of "ns @ [(t, m)]"] t by simp
  qed
  show ?thesis
    using a1 a2 a3 b1 b2 cnt life by blast
qed

theorem submission_state_updates_witness:
  "map_of (atomUpdateSubjects submitted) 2
     = Some \<lparr>emitted = [''CREATED'', ''SUBMITTED''], status = Active\<rparr>
 \<and> map_of (atomUpdateSubjects stored) 2
     = Some \<lparr>emitted = [''CREATED'', ''SUBMITTED'', ''STORED''], status = Completed\<rparr>
 \<and> nonTerminal ''SUBMITTING'' \<and> terminalFailure ''COLLISION'' \<and> terminal ''COLLISION''
 \<and> terminal ''STORED'' \<and> list_all (\<lambda>n. nonTerminal (fst n)) [(''SUBMITTING'', None)]
 \<and> onAtomSubmissionStateUpdate 2 ''SUBMITTING'' None submitted =
     Inr (submitted\<lparr>atomUpdateSubjects :=
       AList.update 2 \<lparr>emitted = [''CREATED'', ''SUBMITTED'', ''SUBMITTING''], status = Active\<rparr>
         (atomUpdateSubjects submitted)\<rparr>)
 \<and> onAtomSubmissionStateUpdate 2 ''COLLISION'' (Some ''duplicate'') submitted =
     Inr (numberOfSubscriptions_next (numberOfSubscriptions submitted - 1)
       (submitted\<lparr>atomUpdateSubjects :=
         AList.update 2 \<lparr>emitted = [''CREATED'', ''SUBMITTED''],
                         status = Errored ''COLLISION: duplicate''\<rparr>
           (atomUpdateSubjects submitted)\<rparr>))
 \<and> numberOfSubscriptions submitted = 2
 \<and> numberOfSubscriptions
      (run (notifications 2 [(''SUBMITTING'', None), (''STORED'', None)]) submitted) = 1
 \<and> onAtomSubmissionStateUpdate 2 ''SUBMITTING'' None stored = Inr stored
 \<and> onAtomSubmissionStateUpdate 2 ''COLLISION'' (Some ''duplicate'') stored =
     Inr (numberOfSubscriptions_next (numberOfSubscriptions stored - 1) stored)"
proof -
  have m: "map_of (atomUpdateSubjects submitted) 2
     = Some \<lparr>emitted = [''CREATED'', ''SUBMITTED''], status = Active\<rparr>"
    by code_simp
  have s: "map_of (atomUpdateSubjects stored) 2
     = Some \<lparr>emitted = [''CREATED'', ''SUBMITTED'', ''STORED''], status = Completed\<rparr>"
    by code_simp
  have n: "numberOfSubscriptions submitted = 2" by code_simp
  have w: "nonTerminal ''SUBMITTING''" "terminalFailure ''COLLISION''" "terminal ''COLLISION''"
    "terminal ''STORED''" "list_all (\<lambda>n. nonTerminal (fst n)) [(''SUBMITTING'', None)]"
    by (simp_all add: nonTerminal_def terminalFailure_def terminal_def)
  show ?thesis
    using m s n w
      submission_state_updates [OF m, where v = "''SUBMITTING''" and m = None
        and msg = "''duplicate''" and ns = "[(''SUBMITTING'', None)]" and t = "''STORED''"]
      submission_state_updates [OF m, where v = "''COLLISION''" and m = None
        and msg = "''duplicate''" and ns = "[]" and t = "''STORED''"]
      submission_state_updates [OF s, where v = "''SUBMITTING''" and m = None
        and msg = "''duplicate''" and ns = "[]" and t = "''STORED''"]
      submission_state_updates [OF s, where v = "''COLLISION''" and m = "Some ''duplicate''"
        and msg = "''duplicate''" and ns = "[]" and t = "''STORED''"]
    by simp
qed

subsection \<open>Submitting an atom\<close>

lemma submitAtom_fields:
  "fst (submitAtom c) = lastSubscriberId c + 1"
  "atomUpdateSubjects (snd (submitAtom c)) =
     AList.update (lastSubscriberId c + 1) \<lparr>emitted = [''CREATED''], status = Active\<rparr>
       (atomUpdateSubjects c)"
  "timers (snd (submitAtom c)) = timers c @ [(clock c + 5000, SubmitTimeout (lastSubscriberId c + 1))]"
  "numberOfSubscriptions (snd (submitAtom c)) = numberOfSubscriptions c"
  "socketCloseCalls (snd (submitAtom c)) = socketCloseCalls c"
  "clock (snd (submitAtom c)) = clock c"
  by (simp_all add: submitAtom_def getSubscriberId_def Let_def)

lemma map_of_map_entry_same:
  "map_of m k = Some v \<Longrightarrow> map_of (AList.map_entry k f m) k = Some (f v)"
  by (simp add: map_of_map_entry)

text \<open>The stream of a submission while timers are fired.\<close>

lemma fireTimer_stream:
  assumes "map_of (atomUpdateSubjects c) i = Some \<lparr>emitted = E, status = st\<rparr>"
    and "st = Active \<or> st = Errored ''Socket timeout''"
  shows "\<exists>st'. map_of (atomUpdateSubjects (fireTimer t c)) i = Some \<lparr>emitted = E, status = st'\<rparr>
       \<and> (st' = Active \<or> st' = Errored ''Socket timeout'')
       \<and> (st = Errored ''Socket timeout'' \<or> t = SubmitTimeout i \<longrightarrow> st' = Errored ''Socket timeout'')"
proof (cases t)
  case IdleClose
  then show ?thesis using assms by simp
next
  case (SubmitTimeout j)
  show ?thesis
  proof (cases "j = i")
    case True
    then show ?thesis
      using assms SubmitTimeout
      by (auto simp add: map_of_map_entry subject_error_def)
  next
    case False
    then show ?thesis
      using assms SubmitTimeout by (simp add: map_of_map_entry)
  qed
qed

lemma fold_fireTimer_stream:
  assumes "map_of (atomUpdateSubjects c) i = Some \<lparr>emitted = E, status = st\<rparr>"
    and "st = Active \<or> st = Errored ''Socket timeout''"
    and "st = Errored ''Socket timeout'' \<or> SubmitTimeout i \<in> set ts"
  shows "map_of (atomUpdateSubjects (fold fireTimer ts c)) i
       = Some \<lparr>emitted = E, status = Errored ''Socket timeout''\<rparr>"
  using assms
proof (induction ts arbitrary: c st)
  case Nil
  then show ?case by simp
next
  case (Cons t ts)
  obtain st' where
    m: "map_of (atomUpdateSubjects (fireTimer t c)) i = Some \<lparr>emitted = E, status = st'\<rparr>"
    and a: "st' = Active \<or> st' = Errored ''Socket timeout''"
    and e: "st = Errored ''Socket timeout'' \<or> t = SubmitTimeout i \<longrightarrow> st' = Errored ''Socket timeout''"
    using fireTimer_stream [OF Cons.prems(1) Cons.prems(2), of t] by blast
  have "st' = Errored ''Socket timeout'' \<or> SubmitTimeout i \<in> set ts"
    using Cons.prems(3) e by auto
  from Cons.IH [OF m a this] show ?case by simp
qed

lemma advance_fields:
  "clock (advance dt c) = clock c + dt"
  "numberOfSubscriptions (advance dt c) = numberOfSubscriptions c"
  "timers (advance dt c) = filter (\<lambda>e. \<not> fst e \<le> clock c + dt) (timers c)"
  "socketCloseCalls (advance dt c)
     = socketCloseCalls c + length (filter (\<lambda>e. fst e \<le> clock c + dt) (timers c))"
  using fold_fireTimer_timers
    [of "map snd (filter (\<lambda>e. fst e \<le> clock c + dt) (timers c))"
        "c\<lparr>clock := clock c + dt,
           timers := filter (\<lambda>e. \<not> fst e \<le> clock c + dt) (timers c)\<rparr>"]
  by (simp_all add: advance_def Let_def)

lemma fold_fireTimer_untouched:
  "SubmitTimeout i \<notin> set ts \<Longrightarrow>
     map_of (atomUpdateSubjects (fold fireTimer ts c)) i = map_of (atomUpdateSubjects c) i"
proof (induction ts arbitrary: c)
  case Nil
  then show ?case by simp
next
  case (Cons t ts)
  then have "map_of (atomUpdateSubjects (fireTimer t c)) i = map_of (atomUpdateSubjects c) i"
    by (cases t) (auto simp add: map_of_map_entry)
  with Cons show ?case by simp
qed

lemma advance_untouched:
  assumes "SubmitTimeout i \<notin> snd ` set (filter (\<lambda>e. fst e \<le> clock c + dt) (timers c))"
  shows "map_of (atomUpdateSubjects (advance dt c)) i = map_of (atomUpdateSubjects c) i"
  using assms
    fold_fireTimer_untouched
      [of i "map snd (filter (\<lambda>e. fst e \<le> clock c + dt) (timers c))"
          "c\<lparr>clock := clock c + dt,
             timers := filter (\<lambda>e. \<not> fst e \<le> clock c + dt) (timers c)\<rparr>"]
  by (simp add: advance_def Let_def)

lemma settled_fields:
  "numberOfSubscriptions (submitAtom_resolved i x) = numberOfSubscriptions x + 1"
  "numberOfSubscriptions (submitAtom_rejected i e x) = numberOfSubscriptions x + 1"
  "socketCloseCalls (submitAtom_resolved i x) = socketCloseCalls x"
  "socketCloseCalls (submitAtom_rejected i e x) = socketCloseCalls x"
  "clock (submitAtom_resolved i x) = clock x"
  "clock (submitAtom_rejected i e x) = clock x"
  "timers (submitAtom_resolved i x) =
     filter (\<lambda>t. snd t \<noteq> SubmitTimeout i) (timers x)
       @ (if numberOfSubscriptions x + 1 \<le> 0 then [(clock x + 5000, IdleClose)] else [])"
  "timers (submitAtom_rejected i e x) =
     filter (\<lambda>t. snd t \<noteq> SubmitTimeout i) (timers x)
       @ (if numberOfSubscriptions x + 1 \<le> 0 then [(clock x + 5000, IdleClose)] else [])"
  "map_of (atomUpdateSubjects (submitAtom_resolved i x)) i
     = map_option (subject_next ''SUBMITTED'') (map_of (atomUpdateSubjects x) i)"
  "map_of (atomUpdateSubjects (submitAtom_rejected i e x)) i
     = map_option (subject_error e) (map_of (atomUpdateSubjects x) i)"
  by (simp_all add: submitAtom_resolved_def submitAtom_rejected_def Let_def
        numberOfSubscriptions_next_def clearTimeout_def map_of_map_entry split: option.splits)

lemma settled_timer_cleared:
  "SubmitTimeout i \<notin> snd ` set (timers (submitAtom_resolved i x))"
  "SubmitTimeout i \<notin> snd ` set (timers (submitAtom_rejected i e x))"
  by (auto simp add: settled_fields)

lemma before_timeout:
  assumes "dt < 5000"
  shows "timers (advance dt (snd (submitAtom c)))
       = timers (advance dt c) @ [(clock c + 5000, SubmitTimeout (fst (submitAtom c)))]"
    and "socketCloseCalls (advance dt (snd (submitAtom c))) = socketCloseCalls (advance dt c)"
    and "SubmitTimeout (fst (submitAtom c)) \<notin> snd ` set (timers c) \<Longrightarrow>
       map_of (atomUpdateSubjects (advance dt (snd (submitAtom c)))) (fst (submitAtom c))
         = Some \<lparr>emitted = [''CREATED''], status = Active\<rparr>"
proof -
  show "timers (advance dt (snd (submitAtom c)))
       = timers (advance dt c) @ [(clock c + 5000, SubmitTimeout (fst (submitAtom c)))]"
    using assms by (simp add: advance_fields submitAtom_fields)
  show "socketCloseCalls (advance dt (snd (submitAtom c))) = socketCloseCalls (advance dt c)"
    using assms by (simp add: advance_fields submitAtom_fields)
  assume fresh: "SubmitTimeout (fst (submitAtom c)) \<notin> snd ` set (timers c)"
  have "SubmitTimeout (fst (submitAtom c)) \<notin> snd ` set
      (filter (\<lambda>e. fst e \<le> clock (snd (submitAtom c)) + dt) (timers (snd (submitAtom c))))"
    using fresh assms by (auto simp add: submitAtom_fields)
  from advance_untouched [OF this]
  show "map_of (atomUpdateSubjects (advance dt (snd (submitAtom c)))) (fst (submitAtom c))
         = Some \<lparr>emitted = [''CREATED''], status = Active\<rparr>"
    by (simp add: submitAtom_fields update_conv')
qed

lemma timeout_fires:
  assumes dt: "5000 \<le> dt"
  shows "map_of (atomUpdateSubjects (advance dt (snd (submitAtom c)))) (fst (submitAtom c))
        = Some \<lparr>emitted = [''CREATED''], status = Errored ''Socket timeout''\<rparr>"
    and "socketCloseCalls c < socketCloseCalls (advance dt (snd (submitAtom c)))"
    and "numberOfSubscriptions (advance dt (snd (submitAtom c))) = numberOfSubscriptions c"
proof -
  define i where "i = fst (submitAtom c)"
  define c1 where "c1 = snd (submitAtom c)"
  define n where "n = clock c1 + dt"
  define due where "due = map snd (filter (\<lambda>e. fst e \<le> n) (timers c1))"
  define c0 where "c0 = c1\<lparr>clock := n, timers := filter (\<lambda>e. \<not> fst e \<le> n) (timers c1)\<rparr>"
  have adv: "advance dt c1 = fold fireTimer due c0"
    by (simp add: advance_def Let_def n_def due_def c0_def)
  have "(clock c + 5000, SubmitTimeout i) \<in> set (timers c1)"
    by (simp add: c1_def i_def submitAtom_fields)
  moreover have "clock c + 5000 \<le> n" using dt by (simp add: n_def c1_def submitAtom_fields)
  ultimately have mem: "SubmitTimeout i \<in> set due"
    by (force simp add: due_def)
  then have len: "0 < length due" by (cases due) auto
  have c0m: "map_of (atomUpdateSubjects c0) i = Some \<lparr>emitted = [''CREATED''], status = Active\<rparr>"
    by (simp add: c0_def c1_def i_def submitAtom_fields update_conv')
  show "map_of (atomUpdateSubjects (advance dt (snd (submitAtom c)))) (fst (submitAtom c))
        = Some \<lparr>emitted = [''CREATED''], status = Errored ''Socket timeout''\<rparr>"
    unfolding c1_def [symmetric] i_def [symmetric] adv
    using fold_fireTimer_stream [OF c0m _ disjI2 [OF mem]] by simp
  have k: "socketCloseCalls (advance dt c1) = socketCloseCalls c + length due"
    unfolding adv using fold_fireTimer_timers [of due c0]
    by (simp add: c0_def c1_def submitAtom_fields)
  show "socketCloseCalls c < socketCloseCalls (advance dt (snd (submitAtom c)))"
    unfolding c1_def [symmetric] using k len by simp
  show "numberOfSubscriptions (advance dt (snd (submitAtom c))) = numberOfSubscriptions c"
    by (simp add: advance_fields submitAtom_fields)
qed

text \<open>
  Claim C8: the stream \<open>submitAtom\<close> returns starts at CREATED; when the call succeeds the
  state advances to SUBMITTED; when the call fails or the 5-second timeout expires the stream
  ends with an error and the socket is closed; the count is incremented when the call settles.
  The claim fails for the failure of the call: on a fresh connection, after a submission whose
  call is rejected the stream has ended with the error, no timer is pending and
  \<open>this._socket.close()\<close> has not been called, nor is it 10 seconds later.
\<close>

theorem submitAtom_rejected_counterexample:
  "map_of (atomUpdateSubjects (run [SubmitAtom, SubmitAtomRejected 2 ''rpc error''] newNodeConnection)) 2
     = Some \<lparr>emitted = [''CREATED''], status = Errored ''rpc error''\<rparr>
 \<and> timers (run [SubmitAtom, SubmitAtomRejected 2 ''rpc error''] newNodeConnection) = []
 \<and> socketCloseCalls (run [SubmitAtom, SubmitAtomRejected 2 ''rpc error''] newNodeConnection) = 0
 \<and> socketCloseCalls
     (run [SubmitAtom, SubmitAtomRejected 2 ''rpc error'', Advance 10000] newNodeConnection) = 0"
  by code_simp

text \<open>
  Claim C8, as amended: the stream \<open>submitAtom\<close> returns starts at CREATED, and the timer of
  the submission fires 5 seconds after the call, not before: until then it is pending and
  has closed nothing. When the call resolves before that, the state advances to SUBMITTED;
  when it is rejected before that, the stream ends with the call's error; in both cases the
  timer of the submission is cleared and \<open>submitAtom\<close> does not close the socket, then or
  later. When the 5 seconds pass and the call has not settled, the socket is closed and the
  stream ends with the error \<open>Socket timeout\<close>, which a later settlement of the call does
  not change. The count is incremented whenever the call settles, resolved or rejected,
  before or after the timeout, and not by the timeout.
\<close>

theorem submitAtom_outcomes:
  fixes c :: RadixNodeConnection
  defines "i \<equiv> fst (submitAtom c)" and "c1 \<equiv> snd (submitAtom c)"
  shows "map_of (atomUpdateSubjects c1) i = Some \<lparr>emitted = [''CREATED''], status = Active\<rparr>
 \<and> map_of (atomUpdateSubjects (submitAtom_resolved i c1)) i
     = Some \<lparr>emitted = [''CREATED'', ''SUBMITTED''], status = Active\<rparr>
 \<and> numberOfSubscriptions (submitAtom_resolved i c1) = numberOfSubscriptions c + 1
 \<and> socketCloseCalls (submitAtom_resolved i c1) = socketCloseCalls c
 \<and> map_of (atomUpdateSubjects (submitAtom_rejected i e c1)) i
     = Some \<lparr>emitted = [''CREATED''], status = Errored e\<rparr>
 \<and> numberOfSubscriptions (submitAtom_rejected i e c1) = numberOfSubscriptions c + 1
 \<and> socketCloseCalls (submitAtom_rejected i e c1) = socketCloseCalls c
 \<and> (5000 \<le> dt \<longrightarrow>
      map_of (atomUpdateSubjects (advance dt c1)) i
        = Some \<lparr>emitted = [''CREATED''], status = Errored ''Socket timeout''\<rparr>
    \<and> socketCloseCalls c < socketCloseCalls (advance dt c1)
    \<and> numberOfSubscriptions (advance dt c1) = numberOfSubscriptions c
    \<and> map_of (atomUpdateSubjects (submitAtom_resolved i (advance dt c1))) i
        = Some \<lparr>emitted = [''CREATED''], status = Errored ''Socket timeout''\<rparr>
    \<and> map_of (atomUpdateSubjects (submitAtom_rejected i e (advance dt c1))) i
        = Some \<lparr>emitted = [''CREATED''], status = Errored ''Socket timeout''\<rparr>)
 \<and> (dt < 5000 \<longrightarrow>
      timers (advance dt c1) = timers (advance dt c) @ [(clock c + 5000, SubmitTimeout i)]
    \<and> socketCloseCalls (advance dt c1) = socketCloseCalls (advance dt c)
    \<and> (SubmitTimeout i \<notin> snd ` set (timers c) \<longrightarrow>
         map_of (atomUpdateSubjects (advance dt c1)) i
           = Some \<lparr>emitted = [''CREATED''], status = Active\<rparr>
       \<and> map_of (atomUpdateSubjects (submitAtom_resolved i (advance dt c1))) i
           = Some \<lparr>emitted = [''CREATED'', ''SUBMITTED''], status = Active\<rparr>
       \<and> map_of (atomUpdateSubjects (submitAtom_rejected i e (advance dt c1))) i
           = Some \<lparr>emitted = [''CREATED''], status = Errored e\<rparr>)
    \<and> (timers c = [] \<and> 0 \<le> numberOfSubscriptions c \<longrightarrow>
         socketCloseCalls (advance later (submitAtom_resolved i (advance dt c1)))
           = socketCloseCalls c
       \<and> socketCloseCalls (advance later (submitAtom_rejected i e (advance dt c1)))
           = socketCloseCalls c))
 \<and> timers (submitAtom_resolved i c1) =
     filter (\<lambda>t. snd t \<noteq> SubmitTimeout i) (timers c)
       @ (if numberOfSubscriptions c + 1 \<le> 0 then [(clock c + 5000, IdleClose)] else [])
 \<and> timers (submitAtom_rejected i e c1) =
     filter (\<lambda>t. snd t \<noteq> SubmitTimeout i) (timers c)
       @ (if numberOfSubscriptions c + 1 \<le> 0 then [(clock c + 5000, IdleClose)] else [])
 \<and> SubmitTimeout i \<notin> snd ` set (timers (submitAtom_resolved i (advance dt c1)))
 \<and> SubmitTimeout i \<notin> snd ` set (timers (submitAtom_rejected i e (advance dt c1)))
 \<and> numberOfSubscriptions (submitAtom_resolved i (advance dt c1)) = numberOfSubscriptions c + 1
 \<and> numberOfSubscriptions (submitAtom_rejected i e (advance dt c1)) = numberOfSubscriptions c + 1
 \<and> socketCloseCalls (submitAtom_resolved i (advance dt c1)) = socketCloseCalls (advance dt c1)
 \<and> socketCloseCalls (submitAtom_rejected i e (advance dt c1)) = socketCloseCalls (advance dt c1)"
proof -
  have created: "map_of (atomUpdateSubjects c1) i
      = Some \<lparr>emitted = [''CREATED''], status = Active\<rparr>"
    by (simp add: i_def c1_def submitAtom_fields update_conv')
  have now: "map_of (atomUpdateSubjects (submitAtom_resolved i c1)) i
       = Some \<lparr>emitted = [''CREATED'', ''SUBMITTED''], status = Active\<rparr>"
    "map_of (atomUpdateSubjects (submitAtom_rejected i e c1)) i
       = Some \<lparr>emitted = [''CREATED''], status = Errored e\<rparr>"
    using created by (simp_all add: settled_fields subject_next_def subject_error_def)
  have now_n: "numberOfSubscriptions (submitAtom_resolved i c1) = numberOfSubscriptions c + 1"
    "socketCloseCalls (submitAtom_resolved i c1) = socketCloseCalls c"
    "numberOfSubscriptions (submitAtom_rejected i e c1) = numberOfSubscriptions c + 1"
    "socketCloseCalls (submitAtom_rejected i e c1) = socketCloseCalls c"
    by (simp_all add: settled_fields c1_def submitAtom_fields)
  have now_t: "timers (submitAtom_resolved i c1) =
      filter (\<lambda>t. snd t \<noteq> SubmitTimeout i) (timers c)
        @ (if numberOfSubscriptions c + 1 \<le> 0 then [(clock c + 5000, IdleClose)] else [])"
    "timers (submitAtom_rejected i e c1) =
      filter (\<lambda>t. snd t \<noteq> SubmitTimeout i) (timers c)
        @ (if numberOfSubscriptions c + 1 \<le> 0 then [(clock c + 5000, IdleClose)] else [])"
    by (simp_all add: settled_fields c1_def i_def submitAtom_fields)
  have late: "map_of (atomUpdateSubjects (advance dt c1)) i
        = Some \<lparr>emitted = [''CREATED''], status = Errored ''Socket timeout''\<rparr>
    \<and> socketCloseCalls c < socketCloseCalls (advance dt c1)
    \<and> numberOfSubscriptions (advance dt c1) = numberOfSubscriptions c
    \<and> map_of (atomUpdateSubjects (submitAtom_resolved i (advance dt c1))) i
        = Some \<lparr>emitted = [''CREATED''], status = Errored ''Socket timeout''\<rparr>
    \<and> map_of (atomUpdateSubjects (submitAtom_rejected i e (advance dt c1))) i
        = Some \<lparr>emitted = [''CREATED''], status = Errored ''Socket timeout''\<rparr>"
    if "5000 \<le> dt"
    using timeout_fires [OF that, of c]
    by (simp add: i_def [symmetric] c1_def [symmetric] settled_fields subject_next_def
          subject_error_def)
  have early: "timers (advance dt c1) = timers (advance dt c) @ [(clock c + 5000, SubmitTimeout i)]
    \<and> socketCloseCalls (advance dt c1) = socketCloseCalls (advance dt c)"
    if "dt < 5000"
    using before_timeout(1,2) [OF that, of c] by (simp add: i_def c1_def)
  have early_s: "map_of (atomUpdateSubjects (advance dt c1)) i
           = Some \<lparr>emitted = [''CREATED''], status = Active\<rparr>
       \<and> map_of (atomUpdateSubjects (submitAtom_resolved i (advance dt c1))) i
           = Some \<lparr>emitted = [''CREATED'', ''SUBMITTED''], status = Active\<rparr>
       \<and> map_of (atomUpdateSubjects (submitAtom_rejected i e (advance dt c1))) i
           = Some \<lparr>emitted = [''CREATED''], status = Errored e\<rparr>"
    if "dt < 5000" "SubmitTimeout i \<notin> snd ` set (timers c)"
    using before_timeout(3) [OF that(1), of c] that(2)
    by (simp add: i_def [symmetric] c1_def [symmetric] settled_fields subject_next_def
          subject_error_def)
  have open': "socketCloseCalls (advance later (submitAtom_resolved i (advance dt c1)))
           = socketCloseCalls c
       \<and> socketCloseCalls (advance later (submitAtom_rejected i e (advance dt c1)))
           = socketCloseCalls c"
    if "dt < 5000" "timers c = []" "0 \<le> numberOfSubscriptions c"
  proof -
    have t: "timers (advance dt c1) = [(clock c + 5000, SubmitTimeout i)]"
      and k: "socketCloseCalls (advance dt c1) = socketCloseCalls c"
      using early [OF that(1)] that(2) by (simp_all add: advance_fields)
    have n: "numberOfSubscriptions (advance dt c1) = numberOfSubscriptions c"
      by (simp add: advance_fields c1_def submitAtom_fields)
    have e: "timers (submitAtom_resolved i (advance dt c1)) = []"
      "timers (submitAtom_rejected i e (advance dt c1)) = []"
      using that(3) by (simp_all add: settled_fields t n)
    have "socketCloseCalls (advance later (submitAtom_resolved i (advance dt c1)))
        = socketCloseCalls (submitAtom_resolved i (advance dt c1))"
      using advance_fields(4) [of later "submitAtom_resolved i (advance dt c1)"] e(1) by simp
    moreover have "socketCloseCalls (advance later (submitAtom_rejected i e (advance dt c1)))
        = socketCloseCalls (submitAtom_rejected i e (advance dt c1))"
      using advance_fields(4) [of later "submitAtom_rejected i e (advance dt c1)"] e(2) by simp
    ultimately show ?thesis using k by (simp add: settled_fields)
  qed
  have any_n: "numberOfSubscriptions (submitAtom_resolved i (advance dt c1))
      = numberOfSubscriptions c + 1"
    "numberOfSubscriptions (submitAtom_rejected i e (advance dt c1)) = numberOfSubscriptions c + 1"
    "socketCloseCalls (submitAtom_resolved i (advance dt c1)) = socketCloseCalls (advance dt c1)"
    "socketCloseCalls (submitAtom_rejected i e (advance dt c1)) = socketCloseCalls (advance dt c1)"
    by (simp_all add: settled_fields advance_fields c1_def submitAtom_fields)
  note cleared = settled_timer_cleared(1) [of i "advance dt c1"]
    settled_timer_cleared(2) [of i e "advance dt c1"]
  show ?thesis
    using created now now_n now_t late early early_s open' any_n cleared
    by (intro conjI impI) blast+
qed

theorem submitAtom_outcomes_witness:
  "(5000::nat) \<le> 5000 \<and> (1000::nat) < 5000
 \<and> fst (submitAtom newNodeConnection) = 2
 \<and> SubmitTimeout 2 \<notin> snd ` set (timers newNodeConnection)
 \<and> timers newNodeConnection = [] \<and> 0 \<le> numberOfSubscriptions newNodeConnection
 \<and> map_of (atomUpdateSubjects (advance 5000 (snd (submitAtom newNodeConnection)))) 2
     = Some \<lparr>emitted = [''CREATED''], status = Errored ''Socket timeout''\<rparr>
 \<and> socketCloseCalls newNodeConnection
     < socketCloseCalls (advance 5000 (snd (submitAtom newNodeConnection)))
 \<and> numberOfSubscriptions (advance 5000 (snd (submitAtom newNodeConnection))) = 1
 \<and> map_of (atomUpdateSubjects (advance 1000 (snd (submitAtom newNodeConnection)))) 2
     = Some \<lparr>emitted = [''CREATED''], status = Active\<rparr>
 \<and> socketCloseCalls (advance 1000 (snd (submitAtom newNodeConnection))) = 0
 \<and> map_of (atomUpdateSubjects
       (submitAtom_rejected 2 ''rpc error'' (advance 1000 (snd (submitAtom newNodeConnection))))) 2
     = Some \<lparr>emitted = [''CREATED''], status = Errored ''rpc error''\<rparr>
 \<and> socketCloseCalls (advance 10000
       (submitAtom_rejected 2 ''rpc error'' (advance 1000 (snd (submitAtom newNodeConnection)))))
     = 0
 \<and> socketCloseCalls (advance 10000
       (submitAtom_resolved 2 (advance 1000 (snd (submitAtom newNodeConnection))))) = 0"
proof -
  have i: "fst (submitAtom newNodeConnection) = 2" by code_simp
  have n: "numberOfSubscriptions newNodeConnection = 1" "timers newNodeConnection = []"
    "socketCloseCalls newNodeConnection = 0"
    by code_simp+
  have a: "socketCloseCalls (advance 1000 newNodeConnection) = 0" by code_simp
  show ?thesis
    using i n a
      submitAtom_outcomes [where c = newNodeConnection and e = "''rpc error''" and dt = 5000
        and later = 10000]
      submitAtom_outcomes [where c = newNodeConnection and e = "''rpc error''" and dt = 1000
        and later = 10000]
    by simp
qed

section \<open>Properties of the cache account system\<close>

text \<open>
  Claim C9: with no cache provider every operation, the loading of the stored atoms included,
  is a no-op that completes without error; with a provider a STORE writes the atom and a
  DELETE removes it.
  The code does otherwise for \<open>loadAtoms\<close>: \<open>processAtomUpdate\<close> returns at once when there
  is no provider and writes or removes the atom when there is one, but \<open>loadAtoms\<close> on a
  system built with no provider raises.
\<close>

theorem loadAtoms_without_provider:
  "loadAtoms (newCacheAccountSystem kp None) = Inl TypeError
 \<and> cacheProcessAtomUpdate u (newCacheAccountSystem kp None) = newCacheAccountSystem kp None
 \<and> atomCache (cacheProcessAtomUpdate (STORE a) (newCacheAccountSystem kp (Some store)))
     = Some (storeAtom a store)
 \<and> atomCache (cacheProcessAtomUpdate (DELETE a) (newCacheAccountSystem kp (Some store)))
     = Some (deleteAtom a store)"
  by (simp add: loadAtoms_def cacheProcessAtomUpdate_def newCacheAccountSystem_def
        STORE_def DELETE_def)

end
